theory Spec2Isabelle
  imports Complex_Main "HOL-Library.Char_ord" "HOL-Library.List_Lexorder" "HOL-Library.Product_Lexorder"
    "HOL-Library.Multiset"
begin

section \<open>Strings\<close>

text \<open>
  A Python string is modelled as a \<^typ>\<open>string\<close>, the sequence of its characters for
  ASCII text (of the bytes of its UTF-8 encoding otherwise). \<open>lower\<close> changes the
  letters \<open>A\<close>..\<open>Z\<close> and nothing else, and the character classes of the regular
  expression are ASCII classes, as in Python. The typed \<open>str\<close> parameters are taken as
  strings: the source's \<open>x or ""\<close> guards only turn \<open>None\<close> into the empty string.
\<close>

definition lower_char :: "char \<Rightarrow> char" where
  "lower_char c =
     (let n = (of_char c :: nat) in if 65 \<le> n \<and> n \<le> 90 then char_of (n + 32) else c)"

definition lower :: "string \<Rightarrow> string" where
  "lower s = map lower_char s"

text \<open>\<open>startswith k s\<close> is Python's \<open>s.startswith(k)\<close>.\<close>

fun startswith :: "string \<Rightarrow> string \<Rightarrow> bool" where
  "startswith [] s = True"
| "startswith (k # ks) [] = False"
| "startswith (k # ks) (c # cs) = (k = c \<and> startswith ks cs)"

text \<open>\<open>str_in k s\<close> is Python's substring test \<open>k in s\<close>.\<close>

fun str_in :: "string \<Rightarrow> string \<Rightarrow> bool" where
  "str_in k [] = startswith k []"
| "str_in k (c # cs) = (startswith k (c # cs) \<or> str_in k cs)"

text \<open>\<open>any_in ks s\<close> is \<open>any(k in s for k in ks)\<close>.\<close>

definition any_in :: "string list \<Rightarrow> string \<Rightarrow> bool" where
  "any_in ks s = list_ex (\<lambda>k. str_in k s) ks"

section \<open>Role classifier (contacts/finder.py)\<close>

text \<open>The dict \<open>ROLE_KEYWORDS\<close>, in insertion order, which is the order of iteration.\<close>

definition ROLE_KEYWORDS :: "(string \<times> string list) list" where
  "ROLE_KEYWORDS =
     [(''csr'', [''csr'', ''sustainab'', ''esg'', ''community'', ''impact'', ''foundation'',
                 ''responsibility'']),
      (''partnership'', [''partner'', ''partnership'', ''alliances'', ''collab'', ''sponsor'',
                         ''sponsorship'']),
      (''marketing'', [''marketing'', ''brand'', ''communications'', ''comms'', ''pr'',
                       ''media''])]"

definition GENERIC_INBOX_HINTS :: "string list" where
  "GENERIC_INBOX_HINTS =
     [''info@'', ''contact@'', ''hello@'', ''support@'', ''enquiry@'', ''inquiry@'']"

text \<open>The literal list of the vocabulary test in \<open>guess_role\<close>.\<close>

definition SPONSOR_VOCAB :: "string list" where
  "SPONSOR_VOCAB =
     [''sponsor'', ''sponsorship'', ''partnership'', ''collaborat'', ''csr'', ''esg'',
      ''foundation'']"

text \<open>
  The \<open>for r, kws in ROLE_KEYWORDS.items()\<close> loop with its \<open>break\<close>: the first role
  one of whose keywords occurs in the e-mail or in the URL.
\<close>

fun first_role :: "(string \<times> string list) list \<Rightarrow> string \<Rightarrow> string \<Rightarrow> string option" where
  "first_role [] e url = None"
| "first_role ((r, kws) # rest) e url =
     (if any_in kws e \<or> any_in kws url then Some r else first_role rest e url)"

text \<open>
  The confidence is a Python float built from the literals \<open>0.0\<close>, \<open>0.6\<close>, \<open>0.2\<close>
  and \<open>1.0\<close>; every sum the function can form (\<open>0.2\<close>, \<open>0.4\<close>, \<open>0.6\<close>, \<open>0.8\<close>,
  \<open>1.0\<close>) is in double precision the double nearest to the decimal, so the score is
  modelled as a real number.
\<close>

definition guess_role :: "string \<Rightarrow> string \<Rightarrow> string \<Rightarrow> string \<times> real" where
  "guess_role email context_url page_text =
     (let e = lower email;
          url = lower context_url;
          text = lower page_text;
          (role, score) = (case first_role ROLE_KEYWORDS e url of
                             Some r \<Rightarrow> (r, 0 + 0.6)
                           | None \<Rightarrow> (''unknown'', 0));
          (role, score) = (if any_in GENERIC_INBOX_HINTS e
                           then (if role = ''unknown'' then ''generic'' else role, score + 0.2)
                           else (role, score));
          score = (if any_in SPONSOR_VOCAB text then score + 0.2 else score)
      in (role, min 1 score))"

section \<open>Email extractor (contacts/finder.py)\<close>

text \<open>
  \<open>EMAIL_RE\<close> is a sequence of greedy repetitions of one-character classes and of
  literal characters. \<open>Rep P lo\<close> is the class \<open>P\<close> repeated at least \<open>lo\<close>
  times (\<open>+\<close> is \<open>Rep P 1\<close>, \<open>{2,}\<close> is \<open>Rep P 2\<close>), \<open>Lit c\<close> the character
  \<open>c\<close>.
\<close>

datatype item = Rep "char \<Rightarrow> bool" nat | Lit char

definition is_alpha :: "char \<Rightarrow> bool" where
  "is_alpha c =
     (let n = (of_char c :: nat) in (97 \<le> n \<and> n \<le> 122) \<or> (65 \<le> n \<and> n \<le> 90))"

definition is_digit :: "char \<Rightarrow> bool" where
  "is_digit c = (let n = (of_char c :: nat) in 48 \<le> n \<and> n \<le> 57)"

text \<open>The class \<open>[a-zA-Z0-9._%+-]\<close>.\<close>

definition local_char :: "char \<Rightarrow> bool" where
  "local_char c = (is_alpha c \<or> is_digit c \<or> c \<in> set ''._%+-'')"

text \<open>The class \<open>[a-zA-Z0-9.-]\<close>.\<close>

definition domain_char :: "char \<Rightarrow> bool" where
  "domain_char c = (is_alpha c \<or> is_digit c \<or> c \<in> set ''.-'')"

definition EMAIL_RE :: "item list" where
  "EMAIL_RE =
     [Rep local_char 1, Lit CHR ''@'', Rep domain_char 1, Lit CHR ''.'', Rep is_alpha 2]"

fun first_some :: "('a \<Rightarrow> 'b option) \<Rightarrow> 'a list \<Rightarrow> 'b option" where
  "first_some f [] = None"
| "first_some f (x # xs) = (case f x of Some y \<Rightarrow> Some y | None \<Rightarrow> first_some f xs)"

text \<open>
  The backtracking matcher: the length of the match of the items at the start of \<open>s\<close>.
  A greedy repetition first takes the longest run of its class and gives characters back
  one at a time, down to its minimum, until the rest of the pattern matches.
\<close>

fun match_here :: "item list \<Rightarrow> string \<Rightarrow> nat option" where
  "match_here [] s = Some 0"
| "match_here (Lit c # its) s =
     (case s of
        [] \<Rightarrow> None
      | d # ds \<Rightarrow> if d = c then map_option Suc (match_here its ds) else None)"
| "match_here (Rep P lo # its) s =
     first_some (\<lambda>k. map_option (\<lambda>r. k + r) (match_here its (drop k s)))
       (rev [lo ..< Suc (length (takeWhile P s))])"

text \<open>
  \<open>finditer\<close> for a pattern that matches no empty string (a match of \<open>EMAIL_RE\<close> has
  six characters or more): the matches from left to right, the search resuming where the
  previous match ended, or one character further where there is no match.
\<close>

function finditer :: "item list \<Rightarrow> string \<Rightarrow> string list" where
  "finditer re [] = []"
| "finditer re (c # cs) =
     (case match_here re (c # cs) of
        None \<Rightarrow> finditer re cs
      | Some n \<Rightarrow> take n (c # cs) # finditer re (drop (max 1 n) (c # cs)))"
  by pat_completeness auto
termination
  by (relation "measure (\<lambda>(re, s). length s)") auto

text \<open>\<open>s.strip(chars)\<close>, and \<open>s.strip()\<close> for the ASCII whitespace.\<close>

definition strip_chars :: "string \<Rightarrow> string \<Rightarrow> string" where
  "strip_chars chars s =
     rev (dropWhile (\<lambda>c. c \<in> set chars) (rev (dropWhile (\<lambda>c. c \<in> set chars) s)))"

definition WHITESPACE :: string where
  "WHITESPACE = [CHR 0x09, CHR 0x0A, CHR 0x0B, CHR 0x0C, CHR 0x0D, CHR 0x1C, CHR 0x1D, CHR 0x1E,
                  CHR 0x1F, CHR 0x20]"

text \<open>The cleanup set \<open>.,;:()[]{}<>"'\<close> (the last two are the two quote characters).\<close>

definition CLEANUP :: string where
  "CLEANUP = ''.,;:()[]{}<>'' @ [CHR 0x22, CHR 0x27]"

text \<open>
  The two Python sets are lists without duplicates: the order in which the first one is
  iterated does not reach the result, which is sorted.
\<close>

definition extract_emails :: "string \<Rightarrow> string list" where
  "extract_emails text =
     (let emails = remdups (finditer EMAIL_RE text);
          cleaned = map (\<lambda>e. strip_chars CLEANUP (strip_chars WHITESPACE e)) emails
      in sort (remdups cleaned))"

section \<open>Contact aggregator (contacts/finder.py)\<close>

record FoundEmail =
  email :: string
  found_on :: string
  role_guess :: string
  confidence :: real

text \<open>
  The dict \<open>found\<close> is an association list in insertion order: assigning to a key that
  is present replaces its value in place, a new key goes to the end.
\<close>

fun dict_set :: "'k \<Rightarrow> 'v \<Rightarrow> ('k \<times> 'v) list \<Rightarrow> ('k \<times> 'v) list" where
  "dict_set k v [] = [(k, v)]"
| "dict_set k v ((k', v') # kvs) =
     (if k' = k then (k, v) # kvs else (k', v') # dict_set k v kvs)"

text \<open>The body of the inner loop, for one e-mail \<open>e\<close> of the page \<open>(url, txt)\<close>.\<close>

definition add_found ::
  "string \<Rightarrow> string \<Rightarrow> (string \<times> FoundEmail) list \<Rightarrow> string \<Rightarrow> (string \<times> FoundEmail) list"
where
  "add_found url txt found e =
     (let (role, conf) = guess_role e url txt in
      if map_of found e = None \<or> conf > confidence (the (map_of found e))
      then dict_set e \<lparr>email = e, found_on = url, role_guess = role, confidence = conf\<rparr> found
      else found)"

definition add_page ::
  "(string \<times> FoundEmail) list \<Rightarrow> string \<times> string \<Rightarrow> (string \<times> FoundEmail) list"
where
  "add_page found page = foldl (add_found (fst page) (snd page)) found (extract_emails (snd page))"

definition role_weight :: "string \<Rightarrow> int" where
  "role_weight r =
     (case map_of [(''csr'', 3), (''partnership'', 3), (''marketing'', 2), (''generic'', 1),
                   (''unknown'', 0)] r of
        Some w \<Rightarrow> w
      | None \<Rightarrow> 0)"

definition rank_key :: "FoundEmail \<Rightarrow> real \<times> int" where
  "rank_key x = (confidence x, role_weight (role_guess x))"

text \<open>
  \<open>sorted(xs, key=f, reverse=True)\<close>: the list is reversed, sorted stably in ascending
  order and reversed again, so that elements with equal keys keep their order.
\<close>

definition sorted_reverse :: "('a \<Rightarrow> 'k::linorder) \<Rightarrow> 'a list \<Rightarrow> 'a list" where
  "sorted_reverse f xs = rev (sort_key f (rev xs))"

definition find_contacts_from_pages :: "(string \<times> string) list \<Rightarrow> FoundEmail list" where
  "find_contacts_from_pages pages =
     sorted_reverse rank_key (map snd (foldl add_page [] pages))"

text \<open>
  Three notions used to state what the aggregator computes: the candidate that a page
  yields for an e-mail, the choice between the candidate kept so far and a new one (the
  test of the inner loop), and the candidates of an e-mail over all pages, in page order.
\<close>

definition candidate :: "string \<Rightarrow> string \<times> string \<Rightarrow> FoundEmail" where
  "candidate e page =
     \<lparr>email = e, found_on = fst page,
      role_guess = fst (guess_role e (fst page) (snd page)),
      confidence = snd (guess_role e (fst page) (snd page))\<rparr>"

fun keep_best :: "FoundEmail option \<Rightarrow> FoundEmail \<Rightarrow> FoundEmail option" where
  "keep_best None c = Some c"
| "keep_best (Some b) c = (if confidence c > confidence b then Some c else Some b)"

definition occurrences :: "string \<Rightarrow> (string \<times> string) list \<Rightarrow> FoundEmail list" where
  "occurrences e pages =
     map (candidate e) (filter (\<lambda>p. e \<in> set (extract_emails (snd p))) pages)"

section \<open>Contact selector (contacts/ranker.py)\<close>

text \<open>\<open>f.email.split("@", 1)[0]\<close>: the text before the first \<open>@\<close>.\<close>

definition local_part :: "string \<Rightarrow> string" where
  "local_part e = takeWhile (\<lambda>c. c \<noteq> CHR ''@'') e"

definition looks_personal :: "FoundEmail \<Rightarrow> bool" where
  "looks_personal f = (CHR ''.'' \<in> set (local_part (email f)) \<or> CHR ''_'' \<in> set (local_part (email f)))"

text \<open>The loop of \<open>pick_top_contacts\<close>, with the list \<open>picked\<close> as accumulator.\<close>

fun pick_loop :: "FoundEmail list \<Rightarrow> int \<Rightarrow> FoundEmail list \<Rightarrow> FoundEmail list" where
  "pick_loop [] max_n picked = picked"
| "pick_loop (f # fs) max_n picked =
     (if looks_personal f \<and> confidence f < 0.8 then pick_loop fs max_n picked
      else if int (length (picked @ [f])) \<ge> max_n then picked @ [f]
      else pick_loop fs max_n (picked @ [f]))"

definition pick_top_contacts :: "FoundEmail list \<Rightarrow> int \<Rightarrow> FoundEmail list" where
  "pick_top_contacts found max_n = pick_loop found max_n []"

section \<open>Configuration (config.py)\<close>

record Settings =
  DB_URL :: string
  LLM_PROVIDER :: string
  LLM_API_KEY :: "string option"
  LLM_BASE_URL :: string
  LLM_MODEL :: string
  LLM_TIMEOUT_S :: int
  SMTP_HOST :: string
  SMTP_PORT :: int
  SMTP_USER :: string
  SMTP_PASS :: string
  SMTP_FROM :: string
  SMTP_USE_TLS :: bool
  RATE_LIMIT_SECONDS :: int
  DEFAULT_LANGUAGE :: string

section \<open>Draft store (db/models.py)\<close>

text \<open>
  A \<open>datetime\<close> is a number of microseconds. The tables are lists of rows; each record
  has the columns of its model class that the worker reads or writes (for \<open>Draft\<close> and
  \<open>SendAttempt\<close>, all of them), a column \<open>c\<close> of the class \<open>K\<close> being the field
  \<open>K_c\<close>.
\<close>

type_synonym datetime = int

text \<open>The constants of the class \<open>DraftStatus\<close>.\<close>

definition DRAFT :: string where "DRAFT = ''draft''"
definition APPROVED :: string where "APPROVED = ''approved''"
definition SENT :: string where "SENT = ''sent''"
definition FAILED :: string where "FAILED = ''failed''"

record Draft =
  Draft_id :: int
  Draft_company_id :: int
  Draft_contact_id :: "int option"
  Draft_subject :: string
  Draft_body_text :: string
  Draft_language :: string
  Draft_personalization_notes :: string
  Draft_status :: string
  Draft_created_at :: datetime
  Draft_updated_at :: datetime

record SendAttempt =
  SendAttempt_id :: int
  SendAttempt_draft_id :: int
  SendAttempt_status :: string
  SendAttempt_provider :: string
  SendAttempt_provider_message_id :: string
  SendAttempt_error :: string
  SendAttempt_timestamp :: datetime

record Contact =
  Contact_id :: int
  Contact_company_id :: int
  Contact_email :: string

record Company =
  Company_id :: int
  Company_campaign_id :: int
  Company_name :: string

record Campaign =
  Campaign_id :: int
  Campaign_name :: string
  Campaign_attachment_paths :: "string list"

record store =
  drafts :: "Draft list"
  attempts :: "SendAttempt list"
  contacts :: "Contact list"
  companies :: "Company list"
  campaigns :: "Campaign list"

text \<open>\<open>s.get(Model, pk)\<close>: the row with that primary key, or \<open>None\<close>.\<close>

definition get :: "('r \<Rightarrow> int) \<Rightarrow> 'r list \<Rightarrow> int \<Rightarrow> 'r option" where
  "get pk rows k = find (\<lambda>r. pk r = k) rows"

text \<open>
  The query of the worker: the approved drafts ordered by \<open>updated_at\<close> ascending, and
  the first of them. Among drafts with equal timestamps the store is taken to return the
  one that comes first in the table.
\<close>

definition first_approved :: "Draft list \<Rightarrow> Draft option" where
  "first_approved ds =
     (case sort_key Draft_updated_at (filter (\<lambda>d. Draft_status d = APPROVED) ds) of
        [] \<Rightarrow> None
      | d # _ \<Rightarrow> Some d)"

text \<open>The primary key that the store gives to a new attempt row.\<close>

definition next_id :: "SendAttempt list \<Rightarrow> int" where
  "next_id rows = foldr max (map SendAttempt_id rows) 0 + 1"

section \<open>Message building and transport (sender/mime_builder.py, sender/smtp_sender.py)\<close>

record EmailMessage =
  msg_subject :: string
  msg_to :: string
  msg_from :: string
  msg_content :: string
  msg_attachments :: "string list"

text \<open>
  The world outside the worker: the clock (\<open>utcnow w n\<close> is the reading of call number
  \<open>n\<close> of \<open>datetime.utcnow()\<close>), the file system (which attachment paths exist) and the
  SMTP server (\<open>smtp_transport w n msg\<close> is \<open>None\<close> when delivery number \<open>n\<close>
  succeeds, and \<open>Some e\<close> when it raises an exception whose text is \<open>e\<close>).
  An exception is modelled by its text \<open>str(e)\<close>.
\<close>

type_synonym exn = string

record world =
  utcnow :: "nat \<Rightarrow> datetime"
  path_exists :: "string \<Rightarrow> bool"
  smtp_transport :: "nat \<Rightarrow> EmailMessage \<Rightarrow> exn option"

definition build_message ::
  "world \<Rightarrow> string \<Rightarrow> string \<Rightarrow> string \<Rightarrow> string \<Rightarrow> string list \<Rightarrow> EmailMessage" where
  "build_message w subject body_text to_email from_email attachment_list =
     \<lparr>msg_subject = subject, msg_to = to_email, msg_from = from_email,
      msg_content = body_text, msg_attachments = filter (path_exists w) attachment_list\<rparr>"

definition send_smtp :: "world \<Rightarrow> Settings \<Rightarrow> nat \<Rightarrow> EmailMessage \<Rightarrow> exn + string" where
  "send_smtp w cfg n msg =
     (if SMTP_HOST cfg = [] \<or> SMTP_USER cfg = [] \<or> SMTP_PASS cfg = []
      then Inl ''Missing SMTP settings. Please configure SMTP_HOST/SMTP_USER/SMTP_PASS in .env''
      else (case smtp_transport w n (msg\<lparr>msg_from :=
                     (if SMTP_FROM cfg \<noteq> [] then SMTP_FROM cfg else SMTP_USER cfg)\<rparr>) of
              Some e \<Rightarrow> Inl e
            | None \<Rightarrow> Inr []))"

section \<open>Send worker (queue/worker.py)\<close>

text \<open>
  The effects of the worker that the store does not show are kept in a log: the sleeps,
  the printed lines, and each commit with the store before and after it.
\<close>

datatype event = Slept int | Printed string | Committed store store

record wstate =
  db :: store
  clock_calls :: nat
  smtp_calls :: nat
  events :: "event list"

text \<open>\<open>time.sleep(secs)\<close> raises \<open>ValueError\<close> for a negative argument.\<close>

definition sleep :: "int \<Rightarrow> wstate \<Rightarrow> exn + wstate" where
  "sleep secs st =
     (if secs < 0 then Inl ''sleep length must be non-negative''
      else Inr (st\<lparr>events := events st @ [Slept secs]\<rparr>))"

text \<open>
  The five statements that end each of the three outcomes: the draft gets its new status
  and the reading of the clock, a \<open>SendAttempt\<close> is constructed (its \<open>timestamp\<close>
  defaults to a second reading of the clock) and both are committed. The arguments are
  the draft's id, the new status and the \<open>status\<close>, \<open>provider_message_id\<close> and
  \<open>error\<close> of the attempt; the \<open>provider\<close> is \<open>smtp\<close> in all three places.
\<close>

definition commit_outcome ::
  "world \<Rightarrow> int \<Rightarrow> string \<Rightarrow> string \<Rightarrow> string \<Rightarrow> string \<Rightarrow> wstate \<Rightarrow> wstate" where
  "commit_outcome w did new_status attempt_status message_id err st =
     (let old_db = db st;
          new_db = old_db
            \<lparr>drafts := map (\<lambda>d. if Draft_id d = did
                                then d\<lparr>Draft_status := new_status,
                                       Draft_updated_at := utcnow w (clock_calls st)\<rparr>
                                else d) (drafts old_db),
             attempts := attempts old_db @
               [\<lparr>SendAttempt_id = next_id (attempts old_db),
                 SendAttempt_draft_id = did,
                 SendAttempt_status = attempt_status,
                 SendAttempt_provider = ''smtp'',
                 SendAttempt_provider_message_id = message_id,
                 SendAttempt_error = err,
                 SendAttempt_timestamp = utcnow w (clock_calls st + 1)\<rparr>]\<rparr>
      in st\<lparr>db := new_db, clock_calls := clock_calls st + 2,
             events := events st @ [Committed old_db new_db]\<rparr>)"

text \<open>
  Lines 28 to 35: the company, the contact, the campaign and the recipient. The variable
  \<open>org\<close> of line 34 is never read.
\<close>

definition get_company :: "store \<Rightarrow> Draft \<Rightarrow> Company option" where
  "get_company s draft = get Company_id (companies s) (Draft_company_id draft)"

definition get_contact :: "store \<Rightarrow> Draft \<Rightarrow> Contact option" where
  "get_contact s draft =
     (case Draft_contact_id draft of
        None \<Rightarrow> None
      | Some cid \<Rightarrow> if cid = 0 then None else get Contact_id (contacts s) cid)"

definition get_campaign :: "store \<Rightarrow> Draft \<Rightarrow> Campaign option" where
  "get_campaign s draft =
     (case get_company s draft of
        None \<Rightarrow> None
      | Some company \<Rightarrow> get Campaign_id (campaigns s) (Company_campaign_id company))"

definition get_to_email :: "store \<Rightarrow> Draft \<Rightarrow> string option" where
  "get_to_email s draft = map_option Contact_email (get_contact s draft)"

text \<open>
  \<open>print(f"[SENT] {company.name} -> ...")\<close> and its \<open>[FAILED]\<close> sibling read
  \<open>company.name\<close>, which raises \<open>AttributeError\<close> when the draft's company is not in
  the store.
\<close>

definition print_outcome :: "Company option \<Rightarrow> (string \<Rightarrow> string) \<Rightarrow> wstate \<Rightarrow> exn + wstate" where
  "print_outcome company line st =
     (case company of
        None \<Rightarrow> Inl ([CHR 0x27] @ ''NoneType'' @ [CHR 0x27] @ '' object has no attribute ''
                     @ [CHR 0x27] @ ''name'' @ [CHR 0x27])
      | Some c \<Rightarrow> Inr (st\<lparr>events := events st @ [Printed (line (Company_name c))]\<rparr>))"

text \<open>The body of the \<open>try\<close>: \<open>Inl (e, st)\<close> is the exception \<open>e\<close> raised in state \<open>st\<close>.\<close>

definition try_send ::
  "world \<Rightarrow> Settings \<Rightarrow> Draft \<Rightarrow> Company option \<Rightarrow> string \<Rightarrow> EmailMessage \<Rightarrow> wstate
     \<Rightarrow> (exn \<times> wstate) + wstate" where
  "try_send w cfg draft company to_email msg st =
     (case send_smtp w cfg (smtp_calls st) msg of
        Inl e \<Rightarrow> Inl (e, st\<lparr>smtp_calls := smtp_calls st + 1\<rparr>)
      | Inr provider_id \<Rightarrow>
          (let st1 = commit_outcome w (Draft_id draft) SENT ''sent'' provider_id []
                       (st\<lparr>smtp_calls := smtp_calls st + 1\<rparr>)
           in case print_outcome company
                     (\<lambda>name. ''[SENT] '' @ name @ '' -> '' @ to_email @ '' | subject=''
                               @ Draft_subject draft) st1 of
                Inl e \<Rightarrow> Inl (e, st1)
              | Inr st2 \<Rightarrow>
                  (case sleep (RATE_LIMIT_SECONDS cfg) st2 of
                     Inl e \<Rightarrow> Inl (e, st2)
                   | Inr st3 \<Rightarrow> Inr st3)))"

text \<open>The \<open>except Exception as e\<close> handler: an exception raised in it leaves the worker.\<close>

definition on_exception ::
  "world \<Rightarrow> Settings \<Rightarrow> Draft \<Rightarrow> Company option \<Rightarrow> string \<Rightarrow> exn \<Rightarrow> wstate
     \<Rightarrow> exn \<times> wstate + wstate" where
  "on_exception w cfg draft company to_email e st =
     (let st1 = commit_outcome w (Draft_id draft) FAILED ''failed'' [] (take 500 e) st
      in case print_outcome company
                (\<lambda>name. ''[FAILED] '' @ name @ '' -> '' @ to_email @ '': '' @ e) st1 of
           Inl e' \<Rightarrow> Inl (e', st1)
         | Inr st2 \<Rightarrow>
             (case sleep (min 30 (RATE_LIMIT_SECONDS cfg)) st2 of
                Inl e' \<Rightarrow> Inl (e', st2)
              | Inr st3 \<Rightarrow> Inr st3))"

text \<open>
  One iteration of \<open>while True\<close>, and how it ends: with \<open>continue\<close> or the end of the
  body (\<open>Continue\<close>), with \<open>return\<close>, or with an exception that nothing catches.
\<close>

datatype ctl = Continue | Return | Raise exn

definition iteration :: "world \<Rightarrow> Settings \<Rightarrow> bool \<Rightarrow> wstate \<Rightarrow> ctl \<times> wstate" where
  "iteration w cfg once st =
     (case first_approved (drafts (db st)) of
        None \<Rightarrow>
          if once then (Return, st)
          else (case sleep 5 st of Inl e \<Rightarrow> (Raise e, st) | Inr st' \<Rightarrow> (Continue, st'))
      | Some draft \<Rightarrow>
          (let company = get_company (db st) draft;
               campaign = get_campaign (db st) draft;
               to_email = get_to_email (db st) draft
           in if to_email = None \<or> to_email = Some []
              then (Continue,
                    commit_outcome w (Draft_id draft) FAILED ''failed'' []
                      ''No recipient email selected'' st)
              else
                (let from_email = (if SMTP_FROM cfg \<noteq> [] then SMTP_FROM cfg else SMTP_USER cfg);
                     msg = build_message w (Draft_subject draft) (Draft_body_text draft)
                             (the to_email) from_email
                             (case campaign of None \<Rightarrow> []
                              | Some c \<Rightarrow> Campaign_attachment_paths c);
                     tried = (case try_send w cfg draft company (the to_email) msg st of
                                Inl (e, st') \<Rightarrow>
                                  on_exception w cfg draft company (the to_email) e st'
                              | Inr st' \<Rightarrow> Inr st')
                 in case tried of
                      Inl (e, st') \<Rightarrow> (Raise e, st')
                    | Inr st' \<Rightarrow> if once then (Return, st') else (Continue, st'))))"

text \<open>
  \<open>run_worker\<close> with fuel, since the loop need not end: \<open>None\<close> says that the worker is
  still running after \<open>fuel\<close> iterations. \<open>init_db()\<close> creates missing tables and
  leaves an existing store as it is; the parameter \<open>loop\<close> is never read.
\<close>

datatype outcome = Returned | Raised exn

fun run_worker ::
  "world \<Rightarrow> Settings \<Rightarrow> bool \<Rightarrow> bool \<Rightarrow> nat \<Rightarrow> wstate \<Rightarrow> outcome option \<times> wstate" where
  "run_worker w cfg loop once 0 st = (None, st)"
| "run_worker w cfg loop once (Suc fuel) st =
     (case iteration w cfg once st of
        (Continue, st') \<Rightarrow> run_worker w cfg loop once fuel st'
      | (Return, st') \<Rightarrow> (Some Returned, st')
      | (Raise e, st') \<Rightarrow> (Some (Raised e), st'))"

text \<open>\<open>main\<close>, with the flag \<open>--once\<close> as a boolean.\<close>

definition main :: "world \<Rightarrow> Settings \<Rightarrow> bool \<Rightarrow> nat \<Rightarrow> wstate \<Rightarrow> outcome option \<times> wstate" where
  "main w cfg once_flag fuel st = run_worker w cfg (\<not> once_flag) once_flag fuel st"

text \<open>
  Notions used to state the worker's properties. \<open>commits\<close> are the commits of a log,
  each with the store before and after it. \<open>paired_transition w k b a\<close> says that the
  store \<open>a\<close> comes from the store \<open>b\<close> by one status change paired with one new
  attempt: one attempt row is appended, of type \<open>sent\<close> or \<open>failed\<close>; the draft it
  names was \<open>APPROVED\<close> (or \<open>SENT\<close>, for a \<open>failed\<close> attempt) and gets the status
  \<open>SENT\<close> or \<open>FAILED\<close> of the same type, with the reading \<open>k\<close> of the clock as its
  \<open>updated_at\<close>; nothing else changes. \<open>paired_chain w k s cs s'\<close> says that the
  commits \<open>cs\<close> lead from the store \<open>s\<close> to the store \<open>s'\<close>, each of them such a
  transition, reading the clock at the calls \<open>k\<close>, \<open>k + 2\<close>, ...
\<close>

fun commits :: "event list \<Rightarrow> (store \<times> store) list" where
  "commits [] = []"
| "commits (Committed b a # es) = (b, a) # commits es"
| "commits (Slept n # es) = commits es"
| "commits (Printed l # es) = commits es"

definition in_flight :: "int \<Rightarrow> bool \<Rightarrow> store \<Rightarrow> bool" where
  "in_flight did sent_too s =
     (\<exists>d \<in> set (drafts s). Draft_id d = did \<and>
        (Draft_status d = APPROVED \<or> (sent_too \<and> Draft_status d = SENT)))"

definition paired_transition :: "world \<Rightarrow> nat \<Rightarrow> store \<Rightarrow> store \<Rightarrow> bool" where
  "paired_transition w k b a =
     (attempts a \<noteq> [] \<and> attempts a = attempts b @ [last (attempts a)] \<and>
      (let att = last (attempts a); did = SendAttempt_draft_id att in
         (SendAttempt_status att = ''sent'' \<or> SendAttempt_status att = ''failed'') \<and>
         in_flight did (SendAttempt_status att = ''failed'') b \<and>
         drafts a =
           map (\<lambda>d. if Draft_id d = did
                     then d\<lparr>Draft_status :=
                              (if SendAttempt_status att = ''sent'' then SENT else FAILED),
                            Draft_updated_at := utcnow w k\<rparr>
                     else d) (drafts b) \<and>
         contacts a = contacts b \<and> companies a = companies b \<and> campaigns a = campaigns b))"

fun paired_chain :: "world \<Rightarrow> nat \<Rightarrow> store \<Rightarrow> (store \<times> store) list \<Rightarrow> store \<Rightarrow> bool" where
  "paired_chain w k s [] s' = (s = s')"
| "paired_chain w k s ((b, a) # cs) s' =
     (b = s \<and> paired_transition w k b a \<and> paired_chain w (k + 2) a cs s')"

definition extends :: "world \<Rightarrow> wstate \<Rightarrow> wstate \<Rightarrow> bool" where
  "extends w st st' =
     (\<exists>cs. commits (events st') = commits (events st) @ cs \<and>
           paired_chain w (clock_calls st) (db st) cs (db st') \<and>
           clock_calls st' = clock_calls st + 2 * length cs)"

text \<open>A world, a configuration and stores on which the worker is run below.\<close>

definition example_world :: world where
  "example_world = \<lparr>utcnow = (\<lambda>n. 1000 + int n), path_exists = (\<lambda>p. True),
                     smtp_transport = (\<lambda>n msg. None)\<rparr>"

definition example_settings :: Settings where
  "example_settings =
     \<lparr>DB_URL = ''sqlite:///outreach.db'', LLM_PROVIDER = ''none'', LLM_API_KEY = None,
      LLM_BASE_URL = [], LLM_MODEL = ''gpt-4o-mini'', LLM_TIMEOUT_S = 60,
      SMTP_HOST = ''smtp.example.org'', SMTP_PORT = 587, SMTP_USER = ''ngo@example.org'',
      SMTP_PASS = ''secret'', SMTP_FROM = [], SMTP_USE_TLS = True,
      RATE_LIMIT_SECONDS = 60, DEFAULT_LANGUAGE = ''vi''\<rparr>"

definition example_draft :: "int \<Rightarrow> int option \<Rightarrow> datetime \<Rightarrow> Draft" where
  "example_draft i contact t =
     \<lparr>Draft_id = i, Draft_company_id = 1, Draft_contact_id = contact,
      Draft_subject = ''Sponsorship'', Draft_body_text = ''Dear team'', Draft_language = ''en'',
      Draft_personalization_notes = [], Draft_status = APPROVED, Draft_created_at = t,
      Draft_updated_at = t\<rparr>"

definition example_store :: "Draft list \<Rightarrow> store" where
  "example_store ds =
     \<lparr>drafts = ds, attempts = [],
      contacts = [\<lparr>Contact_id = 1, Contact_company_id = 1, Contact_email = ''csr@acme.org''\<rparr>,
                  \<lparr>Contact_id = 2, Contact_company_id = 1, Contact_email = []\<rparr>],
      companies = [\<lparr>Company_id = 1, Company_campaign_id = 1, Company_name = ''Acme''\<rparr>],
      campaigns = [\<lparr>Campaign_id = 1, Campaign_name = ''Gala'',
                    Campaign_attachment_paths = [''proposal.pdf'']\<rparr>]\<rparr>"

definition start :: "store \<Rightarrow> wstate" where
  "start s = \<lparr>db = s, clock_calls = 0, smtp_calls = 0, events = []\<rparr>"

section \<open>Text generation (writer/llm.py)\<close>

text \<open>
  Python values as they come out of \<open>json.loads\<close> and go into the dicts of the
  writer. In this part a string is the sequence of the bytes of its UTF-8 encoding.
\<close>

datatype pyval =
  PNone | PBool bool | PInt int | PFloat real | PStr string | PList "pyval list"
  | PDict "(string \<times> pyval) list"

text \<open>
  The exceptions: \<open>LLMError\<close> with its message, and any other exception with the name
  of its class.
\<close>

datatype py_exn = LLMError string | OtherException string

text \<open>
  What the functions take from outside: \<open>requests.post\<close> (it raises, or returns a
  status code and a body), \<open>json.loads\<close> and \<open>resp.json()\<close> (\<open>None\<close> when they
  raise) and the text that \<open>str\<close> gives for a value that is not a string.
\<close>

record llm_world =
  http_post :: "string \<Rightarrow> (string \<times> string) list \<Rightarrow> pyval \<Rightarrow> string + int \<times> string"
  json_loads :: "string \<Rightarrow> pyval option"
  repr :: "pyval \<Rightarrow> string"

fun truthy :: "pyval \<Rightarrow> bool" where
  "truthy PNone = False"
| "truthy (PBool b) = b"
| "truthy (PInt i) = (i \<noteq> 0)"
| "truthy (PFloat x) = (x \<noteq> 0)"
| "truthy (PStr s) = (s \<noteq> [])"
| "truthy (PList xs) = (xs \<noteq> [])"
| "truthy (PDict kvs) = (kvs \<noteq> [])"

text \<open>\<open>a or b\<close>, \<open>str(v)\<close>, \<open>d.get(k)\<close> and \<open>d.get(k, default)\<close>.\<close>

definition py_or :: "pyval \<Rightarrow> pyval \<Rightarrow> pyval" where
  "py_or a b = (if truthy a then a else b)"

definition py_str :: "llm_world \<Rightarrow> pyval \<Rightarrow> string" where
  "py_str lw v = (case v of PStr s \<Rightarrow> s | _ \<Rightarrow> repr lw v)"

definition dict_get :: "(string \<times> pyval) list \<Rightarrow> string \<Rightarrow> pyval" where
  "dict_get d k = (case map_of d k of Some v \<Rightarrow> v | None \<Rightarrow> PNone)"

definition dict_get_default :: "(string \<times> pyval) list \<Rightarrow> string \<Rightarrow> pyval \<Rightarrow> pyval" where
  "dict_get_default d k dflt = (case map_of d k of Some v \<Rightarrow> v | None \<Rightarrow> dflt)"

text \<open>\<open>v[k]\<close> for a string key and \<open>v[0]\<close>: \<open>None\<close> when the subscript raises.\<close>

fun getitem_key :: "pyval \<Rightarrow> string \<Rightarrow> pyval option" where
  "getitem_key (PDict kvs) k = map_of kvs k"
| "getitem_key v k = None"

fun getitem_0 :: "pyval \<Rightarrow> pyval option" where
  "getitem_0 (PList (x # xs)) = Some x"
| "getitem_0 (PStr (c # cs)) = Some (PStr [c])"
| "getitem_0 v = None"

text \<open>\<open>s.rstrip(chars)\<close>, \<open>s.find(c)\<close>, \<open>s.rfind(c)\<close> and \<open>s.replace(old, new)\<close>.\<close>

definition rstrip_chars :: "string \<Rightarrow> string \<Rightarrow> string" where
  "rstrip_chars chars s = rev (dropWhile (\<lambda>c. c \<in> set chars) (rev s))"

definition str_find :: "string \<Rightarrow> char \<Rightarrow> int" where
  "str_find s c = (if c \<in> set s then int (length (takeWhile (\<lambda>x. x \<noteq> c) s)) else - 1)"

definition str_rfind :: "string \<Rightarrow> char \<Rightarrow> int" where
  "str_rfind s c =
     (if c \<in> set s then int (length s) - 1 - int (length (takeWhile (\<lambda>x. x \<noteq> c) (rev s)))
      else - 1)"

function replace :: "string \<Rightarrow> string \<Rightarrow> string \<Rightarrow> string" where
  "replace old new [] = []"
| "replace old new (c # cs) =
     (if old \<noteq> [] \<and> startswith old (c # cs)
      then new @ replace old new (drop (length old) (c # cs))
      else c # replace old new cs)"
  by pat_completeness auto
termination
  by (relation "measure (\<lambda>(old, new, s). length s)") auto

definition default_base_url :: "Settings \<Rightarrow> string" where
  "default_base_url cfg =
     (if LLM_PROVIDER cfg = ''openai'' then ''https://api.openai.com/v1''
      else if LLM_PROVIDER cfg = ''deepseek'' then ''https://api.deepseek.com/v1''
      else strip_chars WHITESPACE (LLM_BASE_URL cfg))"

text \<open>
  \<open>chat_completion\<close>. An exception of \<open>requests.post\<close> or of \<open>resp.json()\<close> is not
  caught; any exception in \<open>data["choices"][0]["message"]["content"]\<close> becomes an
  \<open>LLMError\<close>.
\<close>

definition chat_completion ::
  "Settings \<Rightarrow> llm_world \<Rightarrow> pyval list \<Rightarrow> real \<Rightarrow> int \<Rightarrow> py_exn + pyval" where
  "chat_completion cfg lw messages temperature max_tokens =
     (if LLM_PROVIDER cfg = ''none'' then Inl (LLMError ''LLM_PROVIDER=none (offline mode).'')
      else
        (let base = (if strip_chars WHITESPACE (LLM_BASE_URL cfg) \<noteq> []
                     then strip_chars WHITESPACE (LLM_BASE_URL cfg)
                     else default_base_url cfg)
         in if base = []
            then Inl (LLMError
                   ''Missing LLM_BASE_URL. Set LLM_BASE_URL to an OpenAI-compatible endpoint.'')
            else if LLM_API_KEY cfg = None \<or> LLM_API_KEY cfg = Some []
            then Inl (LLMError ''Missing LLM_API_KEY.'')
            else
              (case http_post lw (rstrip_chars ''/'' base @ ''/chat/completions'')
                      [(''Authorization'', ''Bearer '' @ the (LLM_API_KEY cfg)),
                       (''Content-Type'', ''application/json'')]
                      (PDict [(''model'', PStr (LLM_MODEL cfg)),
                              (''messages'', PList messages),
                              (''temperature'', PFloat temperature),
                              (''max_tokens'', PInt max_tokens)]) of
                 Inl e \<Rightarrow> Inl (OtherException e)
               | Inr (status_code, body) \<Rightarrow>
                   if status_code \<ge> 400
                   then Inl (LLMError (''LLM error '' @ py_str lw (PInt status_code) @ '': ''
                                       @ take 400 body))
                   else
                     (case json_loads lw body of
                        None \<Rightarrow> Inl (OtherException ''JSONDecodeError'')
                      | Some data \<Rightarrow>
                          (case Option.bind (Option.bind (Option.bind
                                  (getitem_key data ''choices'') getitem_0)
                                  (\<lambda>v. getitem_key v ''message''))
                                  (\<lambda>v. getitem_key v ''content'') of
                             None \<Rightarrow> Inl (LLMError (''Unexpected LLM response: ''
                                                   @ py_str lw data))
                           | Some content \<Rightarrow> Inr content)))))"

text \<open>
  \<open>json_from_llm\<close>. The second \<open>json.loads\<close> is outside the \<open>try\<close>: its
  \<open>JSONDecodeError\<close> is not an \<open>LLMError\<close>. Neither is the \<open>AttributeError\<close> of
  \<open>out.find\<close> when the content is not a string.
\<close>

definition json_from_llm ::
  "Settings \<Rightarrow> llm_world \<Rightarrow> pyval list \<Rightarrow> string \<Rightarrow> py_exn + pyval" where
  "json_from_llm cfg lw messages schema_hint =
     (case chat_completion cfg lw
             (PDict [(''role'', PStr ''system''),
                     (''content'',
                      PStr ''Return ONLY valid JSON. No markdown, no commentary.'')]
              # messages) 0.2 1200 of
        Inl e \<Rightarrow> Inl e
      | Inr (PStr out) \<Rightarrow>
          (let i_start = str_find out CHR ''{''; i_end = str_rfind out CHR ''}''
           in if i_start = - 1 \<or> i_end = - 1
              then Inl (LLMError (''No JSON found. Output: '' @ take 400 out))
              else
                (let raw = take (nat (i_end + 1 - i_start)) (drop (nat i_start) out)
                 in case json_loads lw raw of
                      Some v \<Rightarrow> Inr v
                    | None \<Rightarrow>
                        (case json_loads lw (replace '',]'' '']'' (replace '',}'' ''}'' raw)) of
                           Some v \<Rightarrow> Inr v
                         | None \<Rightarrow> Inl (OtherException ''JSONDecodeError''))))
      | Inr v \<Rightarrow> Inl (OtherException ''AttributeError''))"

section \<open>Personalization brief (writer/brief.py)\<close>

text \<open>The literal texts of the fallback brief, as UTF-8.\<close>

definition FALLBACK_ANGLE :: string where
  "FALLBACK_ANGLE =
     ''ph'' @ [CHR 0xC3, CHR 0xA1] @ ''t tri'' @ [CHR 0xE1, CHR 0xBB, CHR 0x83]
     @ ''n b'' @ [CHR 0xE1, CHR 0xBB, CHR 0x81] @ ''n v''
     @ [CHR 0xE1, CHR 0xBB, CHR 0xAF] @ ''ng / c'' @ [CHR 0xE1, CHR 0xBB, CHR 0x99]
     @ ''ng '' @ [CHR 0xC4, CHR 0x91, CHR 0xE1, CHR 0xBB, CHR 0x93] @ ''ng''"

definition FALLBACK_WHY_MATCH :: string where
  "FALLBACK_WHY_MATCH =
     ''C'' @ [CHR 0xC3, CHR 0xB9] @ ''ng h''
     @ [CHR 0xC6, CHR 0xB0, CHR 0xE1, CHR 0xBB, CHR 0x9B] @ ''ng ''
     @ [CHR 0xC4, CHR 0x91, CHR 0xE1, CHR 0xBA, CHR 0xBF] @ ''n t''
     @ [CHR 0xC3, CHR 0xA1] @ ''c ''
     @ [CHR 0xC4, CHR 0x91, CHR 0xE1, CHR 0xBB, CHR 0x99] @ ''ng t''
     @ [CHR 0xC3, CHR 0xAD] @ ''ch c'' @ [CHR 0xE1, CHR 0xBB, CHR 0xB1] @ ''c cho c''
     @ [CHR 0xE1, CHR 0xBB, CHR 0x99] @ ''ng ''
     @ [CHR 0xC4, CHR 0x91, CHR 0xE1, CHR 0xBB, CHR 0x93] @ ''ng.''"

definition FALLBACK_CTA :: string where
  "FALLBACK_CTA =
     ''m'' @ [CHR 0xE1, CHR 0xBB, CHR 0x99] @ ''t cu'' @ [CHR 0xE1, CHR 0xBB, CHR 0x99]
     @ ''c g'' @ [CHR 0xE1, CHR 0xBB, CHR 0x8D] @ ''i 15 ph'' @ [CHR 0xC3, CHR 0xBA]
     @ ''t''"

definition FALLBACK_BENEFIT_1 :: string where
  "FALLBACK_BENEFIT_1 =
     ''G'' @ [CHR 0xE1, CHR 0xBA, CHR 0xAF] @ ''n th''
     @ [CHR 0xC6, CHR 0xB0, CHR 0xC6, CHR 0xA1] @ ''ng hi''
     @ [CHR 0xE1, CHR 0xBB, CHR 0x87] @ ''u v'' @ [CHR 0xE1, CHR 0xBB, CHR 0x9B]
     @ ''i ch'' @ [CHR 0xC6, CHR 0xB0, CHR 0xC6, CHR 0xA1] @ ''ng tr''
     @ [CHR 0xC3, CHR 0xAC] @ ''nh c'' @ [CHR 0xC3, CHR 0xB3] @ '' t''
     @ [CHR 0xC3, CHR 0xA1] @ ''c ''
     @ [CHR 0xC4, CHR 0x91, CHR 0xE1, CHR 0xBB, CHR 0x99] @ ''ng x''
     @ [CHR 0xC3, CHR 0xA3] @ '' h'' @ [CHR 0xE1, CHR 0xBB, CHR 0x99] @ ''i r''
     @ [CHR 0xC3, CHR 0xB5] @ '' r'' @ [CHR 0xC3, CHR 0xA0] @ ''ng''"

definition FALLBACK_BENEFIT_2 :: string where
  "FALLBACK_BENEFIT_2 =
     ''Hi'' @ [CHR 0xE1, CHR 0xBB, CHR 0x87] @ ''n di'' @ [CHR 0xE1, CHR 0xBB, CHR 0x87]
     @ ''n tr'' @ [CHR 0xC3, CHR 0xAA] @ ''n k'' @ [CHR 0xC3, CHR 0xAA] @ ''nh truy''
     @ [CHR 0xE1, CHR 0xBB, CHR 0x81] @ ''n th'' @ [CHR 0xC3, CHR 0xB4] @ ''ng c''
     @ [CHR 0xE1, CHR 0xBB, CHR 0xA7] @ ''a ch''
     @ [CHR 0xC6, CHR 0xB0, CHR 0xC6, CHR 0xA1] @ ''ng tr'' @ [CHR 0xC3, CHR 0xAC]
     @ ''nh''"

definition FALLBACK_BENEFIT_3 :: string where
  "FALLBACK_BENEFIT_3 =
     ''B'' @ [CHR 0xC3, CHR 0xA1] @ ''o c'' @ [CHR 0xC3, CHR 0xA1] @ ''o/ghi nh''
     @ [CHR 0xE1, CHR 0xBA, CHR 0xAD] @ ''n t'' @ [CHR 0xC3, CHR 0xA1] @ ''c ''
     @ [CHR 0xC4, CHR 0x91, CHR 0xE1, CHR 0xBB, CHR 0x99] @ ''ng sau ch''
     @ [CHR 0xC6, CHR 0xB0, CHR 0xC6, CHR 0xA1] @ ''ng tr'' @ [CHR 0xC3, CHR 0xAC]
     @ ''nh''"

definition FALLBACK_SUBJECT_1 :: string where
  "FALLBACK_SUBJECT_1 =
     [CHR 0xC4, CHR 0x90, CHR 0xE1, CHR 0xBB, CHR 0x81] @ '' xu''
     @ [CHR 0xE1, CHR 0xBA, CHR 0xA5] @ ''t ''
     @ [CHR 0xC4, CHR 0x91, CHR 0xE1, CHR 0xBB, CHR 0x93] @ ''ng h''
     @ [CHR 0xC3, CHR 0xA0] @ ''nh t'' @ [CHR 0xC3, CHR 0xA0] @ ''i tr''
     @ [CHR 0xE1, CHR 0xBB, CHR 0xA3] @ '' c'' @ [CHR 0xC3, CHR 0xB9] @ ''ng ''"

definition FALLBACK_SUBJECT_2 :: string where
  "FALLBACK_SUBJECT_2 =
     ''C'' @ [CHR 0xC6, CHR 0xA1] @ '' h'' @ [CHR 0xE1, CHR 0xBB, CHR 0x99] @ ''i h''
     @ [CHR 0xE1, CHR 0xBB, CHR 0xA3] @ ''p t'' @ [CHR 0xC3, CHR 0xA1] @ ''c CSR: ''"

definition FALLBACK_SUBJECT_3 :: string where
  "FALLBACK_SUBJECT_3 =
     ''K'' @ [CHR 0xE1, CHR 0xBA, CHR 0xBF] @ ''t n'' @ [CHR 0xE1, CHR 0xBB, CHR 0x91]
     @ ''i h'' @ [CHR 0xE1, CHR 0xBB, CHR 0xA3] @ ''p t'' @ [CHR 0xC3, CHR 0xA1]
     @ ''c t'' @ [CHR 0xC3, CHR 0xA0] @ ''i tr'' @ [CHR 0xE1, CHR 0xBB, CHR 0xA3]"

definition FALLBACK_ORG_NAME :: string where
  "FALLBACK_ORG_NAME =
     ''ch'' @ [CHR 0xC6, CHR 0xB0, CHR 0xC6, CHR 0xA1] @ ''ng tr''
     @ [CHR 0xC3, CHR 0xAC] @ ''nh''"

text \<open>The message \<open>prompt\<close>.\<close>

definition brief_prompt ::
  "llm_world \<Rightarrow> (string \<times> pyval) list \<Rightarrow> (string \<times> pyval) list \<Rightarrow> string \<Rightarrow> pyval" where
  "brief_prompt lw org_profile company_profile language =
     PDict [(''role'', PStr ''user''),
            (''content'', PStr (
          ''You are writing a sponsorship outreach email. Create a personalization brief in JSON.''
          @ [CHR 0x0A, CHR 0x0A] @ ''Language: ''
          @ language @
          [CHR 0x0A, CHR 0x0A] @ ''Org/Event info:'' @ [CHR 0x0A]
          @ py_str lw (PDict org_profile) @
          [CHR 0x0A, CHR 0x0A] @ ''Company info:'' @ [CHR 0x0A]
          @ py_str lw (PDict company_profile) @
          [CHR 0x0A, CHR 0x0A] @ ''Return JSON with keys:'' @ [CHR 0x0A]
          @ ''- company_angle (string)'' @ [CHR 0x0A]
          @ ''- why_match (array of 2-3 bullets)'' @ [CHR 0x0A]
          @ ''- best_cta (string)'' @ [CHR 0x0A] @ ''- benefits (array of 3 bullets)''
          @ [CHR 0x0A] @ ''- subject_ideas (array of 3 short subject lines)''
          @ [CHR 0x0A]))]"

text \<open>The dict of the \<open>except LLMError\<close> branch.\<close>

definition fallback_brief ::
  "llm_world \<Rightarrow> (string \<times> pyval) list \<Rightarrow> (string \<times> pyval) list \<Rightarrow> (string \<times> pyval) list" where
  "fallback_brief lw org_profile company_profile =
     [(''company_angle'',
       py_or (dict_get company_profile ''csr_focus'')
         (py_or (dict_get company_profile ''mission_values'') (PStr FALLBACK_ANGLE))),
      (''why_match'', PList [PStr FALLBACK_WHY_MATCH]),
      (''best_cta'', PStr FALLBACK_CTA),
      (''benefits'',
       PList [PStr FALLBACK_BENEFIT_1, PStr FALLBACK_BENEFIT_2, PStr FALLBACK_BENEFIT_3]),
      (''subject_ideas'',
       PList [PStr (FALLBACK_SUBJECT_1
                    @ py_str lw (dict_get_default org_profile ''org_name''
                                   (PStr FALLBACK_ORG_NAME))),
              PStr (FALLBACK_SUBJECT_2
                    @ py_str lw (dict_get_default org_profile ''org_name''
                                   (PStr FALLBACK_ORG_NAME))),
              PStr FALLBACK_SUBJECT_3])]"

definition build_personalization_brief ::
  "Settings \<Rightarrow> llm_world \<Rightarrow> (string \<times> pyval) list \<Rightarrow> (string \<times> pyval) list \<Rightarrow> string
     \<Rightarrow> py_exn + pyval" where
  "build_personalization_brief cfg lw org_profile company_profile language =
     (case json_from_llm cfg lw [brief_prompt lw org_profile company_profile language]
             ''brief'' of
        Inr brief \<Rightarrow> Inr brief
      | Inl (LLMError m) \<Rightarrow> Inr (PDict (fallback_brief lw org_profile company_profile))
      | Inl (OtherException e) \<Rightarrow> Inl (OtherException e))"

text \<open>An outside on which every request fails, and the dicts that the application builds.\<close>

definition example_llm_world :: llm_world where
  "example_llm_world =
     \<lparr>http_post = (\<lambda>url headers payload. Inl ''ConnectionError''),
      json_loads = (\<lambda>s. None), repr = (\<lambda>v. ''?'')\<rparr>"

definition example_org :: "(string \<times> pyval) list" where
  "example_org = [(''org_name'', PStr ''Green Gala''), (''mission'', PStr ''Trees'')]"

definition example_company :: "(string \<times> pyval) list" where
  "example_company =
     [(''name'', PStr ''Acme''), (''mission_values'', PStr ''Quality''), (''csr_focus'', PStr [])]"

section \<open>Properties of the role classifier\<close>

lemma startswith_lower: "startswith k s \<Longrightarrow> startswith (lower k) (lower s)"
  by (induction k s rule: startswith.induct) (auto simp: lower_def)

lemma str_in_lower: "str_in k s \<Longrightarrow> str_in (lower k) (lower s)"
proof (induction s)
  case Nil
  then show ?case using startswith_lower [of k "[]"] by (simp add: lower_def)
next
  case (Cons c cs)
  then show ?case using startswith_lower [of k "c # cs"] by (auto simp: lower_def)
qed

lemma any_in_lower:
  assumes "any_in ks s" and "\<forall>k \<in> set ks. lower k = k"
  shows "any_in ks (lower s)"
  using assms str_in_lower unfolding any_in_def list_ex_iff by metis

lemma csr_keywords_lower:
  "map_of ROLE_KEYWORDS ''csr'' = Some kws \<Longrightarrow> \<forall>k \<in> set kws. lower k = k"
  by (auto simp: ROLE_KEYWORDS_def lower_def lower_char_def)

lemma first_role_csr:
  "map_of ROLE_KEYWORDS ''csr'' = Some kws \<Longrightarrow> any_in kws url \<Longrightarrow>
   first_role ROLE_KEYWORDS e url = Some ''csr''"
  by (auto simp: ROLE_KEYWORDS_def)

text \<open>
  C3 (as amended). For the e-mail \<open>info@acme.org\<close>, the URL
  \<open>https://acme.org/partnership\<close> and the page text
  \<open>Contact: info@acme.org for partnership inquiries\<close>, \<open>guess_role\<close> returns the role
  \<open>partnership\<close> with confidence 1.0: the URL keyword gives 0.6, the generic-inbox hint
  \<open>info@\<close> adds 0.2, and the word \<open>partnership\<close> of the page text is in the vocabulary
  list and adds 0.2.
\<close>

theorem C3_guess_role_acme:
  "first_role ROLE_KEYWORDS (lower ''info@acme.org'') (lower ''https://acme.org/partnership'')
     = Some ''partnership'' \<and>
   any_in GENERIC_INBOX_HINTS (lower ''info@acme.org'') \<and>
   any_in SPONSOR_VOCAB (lower ''Contact: info@acme.org for partnership inquiries'') \<and>
   guess_role ''info@acme.org'' ''https://acme.org/partnership''
     ''Contact: info@acme.org for partnership inquiries'' = (''partnership'', 1)"
  by code_simp

text \<open>
  C3 as stated fails: on that input the confidence returned is not 0.6.
\<close>

theorem C3_counterexample:
  "guess_role ''info@acme.org'' ''https://acme.org/partnership''
     ''Contact: info@acme.org for partnership inquiries'' \<noteq> (''partnership'', 0.6)"
  by code_simp

text \<open>
  C4 (as amended). When the URL contains a keyword of the role \<open>csr\<close> (as it is, or
  once lower-cased) and the lower-cased page text contains no word of the vocabulary
  list, \<open>guess_role\<close> returns the role \<open>csr\<close>, with confidence 0.6 when the lower-cased
  e-mail contains no generic-inbox hint and 0.8 when it contains one.
\<close>

theorem C4_guess_role_csr_url:
  assumes kws: "map_of ROLE_KEYWORDS ''csr'' = Some kws"
    and url: "any_in kws url \<or> any_in kws (lower url)"
    and novocab: "\<not> any_in SPONSOR_VOCAB (lower page_text)"
  shows "guess_role addr url page_text =
           (''csr'', if any_in GENERIC_INBOX_HINTS (lower addr) then 0.8 else 0.6)"
proof -
  from url have "any_in kws (lower url)"
    using any_in_lower [OF _ csr_keywords_lower [OF kws]] by blast
  then have "first_role ROLE_KEYWORDS (lower addr) (lower url) = Some ''csr''"
    by (rule first_role_csr [OF kws])
  with novocab show ?thesis
    by (simp add: guess_role_def)
qed

theorem C4_witness:
  "map_of ROLE_KEYWORDS ''csr'' = Some (snd (hd ROLE_KEYWORDS)) \<and>
   any_in (snd (hd ROLE_KEYWORDS)) (lower ''https://acme.org/CSR-report'') \<and>
   \<not> any_in SPONSOR_VOCAB (lower ''Write to our team'') \<and>
   guess_role ''team@acme.org'' ''https://acme.org/CSR-report'' ''Write to our team''
     = (''csr'', 0.6)"
proof -
  have k: "map_of ROLE_KEYWORDS ''csr'' = Some (snd (hd ROLE_KEYWORDS))"
    by (simp add: ROLE_KEYWORDS_def)
  have u: "any_in (snd (hd ROLE_KEYWORDS)) (lower ''https://acme.org/CSR-report'')"
    by code_simp
  have t: "\<not> any_in SPONSOR_VOCAB (lower ''Write to our team'')"
    by code_simp
  have g: "\<not> any_in GENERIC_INBOX_HINTS (lower ''team@acme.org'')"
    by code_simp
  from C4_guess_role_csr_url [OF k disjI2 [OF u] t, of "''team@acme.org''"] g k u t
  show ?thesis by simp
qed

text \<open>
  C4 as stated fails: with a CSR keyword in the URL and no vocabulary word in the text,
  the address \<open>info@acme.org\<close> gets confidence 0.8, not 0.6.
\<close>

theorem C4_counterexample:
  "any_in (snd (hd ROLE_KEYWORDS)) ''https://acme.org/csr'' \<and>
   \<not> any_in SPONSOR_VOCAB (lower ''Write to our team'') \<and>
   guess_role ''info@acme.org'' ''https://acme.org/csr'' ''Write to our team'' = (''csr'', 0.8) \<and>
   guess_role ''info@acme.org'' ''https://acme.org/csr'' ''Write to our team'' \<noteq> (''csr'', 0.6)"
  by code_simp

section \<open>Properties of the email extractor\<close>

lemma first_some_SomeD: "first_some f xs = Some y \<Longrightarrow> \<exists>x \<in> set xs. f x = Some y"
  by (induction xs) (auto split: option.splits)

lemma match_here_at:
  assumes "match_here EMAIL_RE s = Some n"
  shows "CHR ''@'' \<in> set (take n s)"
proof -
  from assms obtain k r where
    r: "match_here (Lit CHR ''@'' # [Rep domain_char 1, Lit CHR ''.'', Rep is_alpha 2]) (drop k s) = Some r"
    and n: "n = k + r"
    unfolding EMAIL_RE_def match_here.simps(3)
    by (auto dest!: first_some_SomeD)
  from r obtain ds where ds: "drop k s = CHR ''@'' # ds" and "0 < r"
    by (auto split: list.splits if_splits)
  then have "k < length s" and "s ! k = CHR ''@''"
    by (metis drop_eq_Nil list.distinct(1) not_le, metis Cons_nth_drop_Suc drop_all list.distinct(1) list.inject not_le ds)
  moreover have "k < n" using n \<open>0 < r\<close> by simp
  ultimately show ?thesis
    by (metis in_set_conv_nth length_take min_less_iff_conj nth_take)
qed

lemma finditer_at: "m \<in> set (finditer EMAIL_RE s) \<Longrightarrow> CHR ''@'' \<in> set m"
  by (induction EMAIL_RE s rule: finditer.induct)
     (auto split: option.splits dest: match_here_at)

lemma in_dropWhile: "c \<in> set s \<Longrightarrow> \<not> P c \<Longrightarrow> c \<in> set (dropWhile P s)"
  by (induction s) auto

lemma strip_chars_keeps: "c \<in> set s \<Longrightarrow> c \<notin> set chars \<Longrightarrow> c \<in> set (strip_chars chars s)"
  by (simp add: strip_chars_def in_dropWhile)

lemma strip_chars_ends:
  assumes "strip_chars chars s \<noteq> []"
  shows "hd (strip_chars chars s) \<notin> set chars \<and> last (strip_chars chars s) \<notin> set chars"
proof -
  let ?P = "\<lambda>c. c \<in> set chars"
  let ?u = "dropWhile ?P s"
  let ?v = "dropWhile ?P (rev ?u)"
  from assms have v: "?v \<noteq> []" by (simp add: strip_chars_def)
  have u: "?u \<noteq> []"
  proof
    assume a: "?u = []"
    have "?v = []" unfolding a by simp
    with v show False by simp
  qed
  have "\<not> ?P (hd ?v)" using v by (rule hd_dropWhile)
  then have l: "last (strip_chars chars s) \<notin> set chars"
    using v by (simp add: strip_chars_def last_rev)
  have "\<not> ?P (hd ?u)" using u by (rule hd_dropWhile)
  moreover have "last ?v = last (rev ?u)"
    using v by (metis last_appendR takeWhile_dropWhile_id)
  ultimately have "hd (strip_chars chars s) \<notin> set chars"
    using v u by (simp add: strip_chars_def hd_rev last_rev)
  with l show ?thesis by simp
qed

lemma extract_emails_distinct: "distinct (extract_emails t)"
  by (simp add: extract_emails_def)

lemma extract_emails_sorted: "sorted (extract_emails t)"
  by (simp add: extract_emails_def)

lemma extract_emails_clean:
  assumes "e \<in> set (extract_emails t)"
  shows "e \<noteq> [] \<and> hd e \<notin> set CLEANUP \<and> last e \<notin> set CLEANUP"
proof -
  from assms obtain m where m: "m \<in> set (finditer EMAIL_RE t)"
    and e: "e = strip_chars CLEANUP (strip_chars WHITESPACE m)"
    by (auto simp: extract_emails_def)
  have "CHR ''@'' \<in> set m" using m by (rule finditer_at)
  then have "CHR ''@'' \<in> set (strip_chars WHITESPACE m)"
    by (rule strip_chars_keeps) (simp add: WHITESPACE_def)
  then have "CHR ''@'' \<in> set e"
    unfolding e by (rule strip_chars_keeps) (simp add: CLEANUP_def)
  then have "e \<noteq> []" by auto
  with strip_chars_ends [of CLEANUP "strip_chars WHITESPACE m"] e show ?thesis by simp
qed

text \<open>
  C8. For every input text, \<open>extract_emails\<close> returns a list without duplicates,
  sorted lexicographically, in which every entry is non-empty and neither starts nor ends
  with a character of the cleanup set.
\<close>

theorem C8_extract_emails:
  "distinct (extract_emails t) \<and> sorted (extract_emails t) \<and>
   (\<forall>e \<in> set (extract_emails t). e \<noteq> [] \<and> hd e \<notin> set CLEANUP \<and> last e \<notin> set CLEANUP)"
  using extract_emails_distinct extract_emails_sorted extract_emails_clean by blast

theorem C8_witness:
  "extract_emails ''Mail (info@acme.org), or .john_doe@x.co.uk. or info@acme.org''
     = [''info@acme.org'', ''john_doe@x.co.uk''] \<and>
   distinct (extract_emails ''Mail (info@acme.org), or .john_doe@x.co.uk. or info@acme.org'') \<and>
   sorted (extract_emails ''Mail (info@acme.org), or .john_doe@x.co.uk. or info@acme.org'') \<and>
   hd ''john_doe@x.co.uk'' \<notin> set CLEANUP \<and> last ''john_doe@x.co.uk'' \<notin> set CLEANUP"
proof -
  have v: "extract_emails ''Mail (info@acme.org), or .john_doe@x.co.uk. or info@acme.org''
     = [''info@acme.org'', ''john_doe@x.co.uk'']"
    by code_simp
  have "''john_doe@x.co.uk''
          \<in> set (extract_emails ''Mail (info@acme.org), or .john_doe@x.co.uk. or info@acme.org'')"
    unfolding v by simp
  with C8_extract_emails [of "''Mail (info@acme.org), or .john_doe@x.co.uk. or info@acme.org''"] v
  show ?thesis by blast
qed

section \<open>Properties of the contact selector\<close>

lemma pick_loop_take:
  "int (length picked) < max_n \<Longrightarrow>
   pick_loop fs max_n picked =
     take (nat max_n) (picked @ filter (\<lambda>f. \<not> (looks_personal f \<and> confidence f < 0.8)) fs)"
proof (induction fs arbitrary: picked)
  case Nil
  then show ?case by simp
next
  case (Cons f fs)
  show ?case
  proof (cases "looks_personal f \<and> confidence f < 0.8")
    case True
    with Cons show ?thesis by simp
  next
    case False
    show ?thesis
    proof (cases "max_n \<le> int (length (picked @ [f]))")
      case True
      with Cons.prems have "nat max_n = Suc (length picked)" by simp
      with True False show ?thesis by auto
    next
      case stop: False
      then have "int (length (picked @ [f])) < max_n" by simp
      from Cons.IH [OF this] False stop show ?thesis by auto
    qed
  qed
qed

lemma pick_top_contacts_positive:
  "1 \<le> max_n \<Longrightarrow>
   pick_top_contacts found max_n =
     take (nat max_n) (filter (\<lambda>f. \<not> (looks_personal f \<and> confidence f < 0.8)) found)"
  using pick_loop_take [of "[]" max_n found] by (simp add: pick_top_contacts_def)

lemma pick_top_contacts_nonpositive:
  "max_n \<le> 0 \<Longrightarrow>
   pick_top_contacts found max_n =
     take 1 (filter (\<lambda>f. \<not> (looks_personal f \<and> confidence f < 0.8)) found)"
  unfolding pick_top_contacts_def by (induction found) auto

lemma pick_top_contacts_no_personal:
  "f \<in> set (pick_top_contacts found max_n) \<Longrightarrow> \<not> (looks_personal f \<and> confidence f < 0.8)"
proof (cases "1 \<le> max_n")
  case True
  assume "f \<in> set (pick_top_contacts found max_n)"
  then show ?thesis
    unfolding pick_top_contacts_positive [OF True] by (auto dest: in_set_takeD)
next
  case False
  then have n: "max_n \<le> 0" by simp
  assume "f \<in> set (pick_top_contacts found max_n)"
  then show ?thesis
    unfolding pick_top_contacts_nonpositive [OF n] by (auto dest: in_set_takeD)
qed

text \<open>
  C6. The claim that \<open>pick_top_contacts\<close> returns at most \<open>N\<close> candidates for every
  \<open>N\<close> fails at \<open>N = 0\<close>: the length of \<open>picked\<close> is compared with \<open>max_n\<close> only after
  a candidate has been appended, so one candidate is returned.
\<close>

theorem C6_pick_top_contacts_zero:
  "pick_top_contacts
     [\<lparr>email = ''info@acme.org'', found_on = ''https://acme.org/contact'',
       role_guess = ''generic'', confidence = 0.2\<rparr>] 0
   = [\<lparr>email = ''info@acme.org'', found_on = ''https://acme.org/contact'',
       role_guess = ''generic'', confidence = 0.2\<rparr>] \<and>
   \<not> int (length (pick_top_contacts
     [\<lparr>email = ''info@acme.org'', found_on = ''https://acme.org/contact'',
       role_guess = ''generic'', confidence = 0.2\<rparr>] 0)) \<le> 0"
  by (simp add: pick_top_contacts_def looks_personal_def local_part_def)

section \<open>Properties of the contact aggregator\<close>

lemma map_of_dict_set: "map_of (dict_set k v d) = (map_of d)(k \<mapsto> v)"
  by (induction d) (auto simp: fun_eq_iff)

lemma keys_dict_set:
  "map fst (dict_set k v d) = (if k \<in> fst ` set d then map fst d else map fst d @ [k])"
  by (induction d) (force simp: image_iff)+

lemma distinct_dict_set: "distinct (map fst d) \<Longrightarrow> distinct (map fst (dict_set k v d))"
  by (simp add: keys_dict_set)

lemma map_of_add_found:
  "map_of (add_found url txt found e) =
     (map_of found)(e := keep_best (map_of found e) (candidate e (url, txt)))"
  by (cases "map_of found e")
     (auto simp: add_found_def candidate_def map_of_dict_set fun_eq_iff split: prod.splits)

lemma distinct_add_found:
  "distinct (map fst found) \<Longrightarrow> distinct (map fst (add_found url txt found e))"
  by (auto simp: add_found_def distinct_dict_set split: prod.splits)

lemma map_of_foldl_add_found:
  "distinct es \<Longrightarrow>
   map_of (foldl (add_found url txt) found es) e =
     (if e \<in> set es then keep_best (map_of found e) (candidate e (url, txt))
      else map_of found e)"
  by (induction es arbitrary: found) (auto simp: map_of_add_found)

lemma distinct_foldl_add_found:
  "distinct (map fst found) \<Longrightarrow> distinct (map fst (foldl (add_found url txt) found es))"
  by (induction es arbitrary: found) (auto simp: distinct_add_found)

lemma map_of_add_page:
  "map_of (add_page found p) e =
     (if e \<in> set (extract_emails (snd p)) then keep_best (map_of found e) (candidate e p)
      else map_of found e)"
  unfolding add_page_def
  using map_of_foldl_add_found [of "extract_emails (snd p)" "fst p" "snd p" found e]
  by (simp add: extract_emails_distinct)

lemma distinct_add_page: "distinct (map fst found) \<Longrightarrow> distinct (map fst (add_page found p))"
  unfolding add_page_def by (rule distinct_foldl_add_found)

lemma map_of_foldl_add_page:
  "map_of (foldl add_page found pages) e = foldl keep_best (map_of found e) (occurrences e pages)"
  by (induction pages arbitrary: found) (auto simp: map_of_add_page occurrences_def)

lemma distinct_foldl_add_page:
  "distinct (map fst found) \<Longrightarrow> distinct (map fst (foldl add_page found pages))"
  by (induction pages arbitrary: found) (auto simp: distinct_add_page)

lemma foldl_keep_best_Some:
  "foldl keep_best (Some b0) cs = Some b \<Longrightarrow>
   (b = b0 \<or> b \<in> set cs) \<and> confidence b0 \<le> confidence b \<and>
   (\<forall>c \<in> set cs. confidence c \<le> confidence b)"
proof (induction cs arbitrary: b0)
  case Nil
  then show ?case by simp
next
  case (Cons c cs)
  show ?case
  proof (cases "confidence c > confidence b0")
    case True
    with Cons.prems have "foldl keep_best (Some c) cs = Some b" by simp
    from Cons.IH [OF this] True show ?thesis by auto
  next
    case False
    with Cons.prems have "foldl keep_best (Some b0) cs = Some b" by simp
    from Cons.IH [OF this] False show ?thesis by auto
  qed
qed

lemma foldl_keep_best_is_Some: "\<exists>b. foldl keep_best (Some b0) cs = Some b"
  by (induction cs arbitrary: b0) auto

lemma best_in_occurrences:
  assumes "foldl keep_best None cs = Some b"
  shows "b \<in> set cs \<and> (\<forall>c \<in> set cs. confidence c \<le> confidence b)"
proof (cases cs)
  case Nil
  with assms show ?thesis by simp
next
  case (Cons c cs')
  with assms have "foldl keep_best (Some c) cs' = Some b" by simp
  from foldl_keep_best_Some [OF this] Cons show ?thesis by auto
qed

lemma best_exists: "cs \<noteq> [] \<Longrightarrow> \<exists>b. foldl keep_best None cs = Some b"
  by (cases cs) (auto simp: foldl_keep_best_is_Some)

lemma occurrences_email: "c \<in> set (occurrences e pages) \<Longrightarrow> email c = e"
  by (auto simp: occurrences_def candidate_def)

lemma occurrences_page:
  "c \<in> set (occurrences e pages) \<Longrightarrow>
   \<exists>p \<in> set pages. e \<in> set (extract_emails (snd p)) \<and> c = candidate e p"
  by (auto simp: occurrences_def)

lemma occurrences_perm:
  "set pages' = set pages \<Longrightarrow> set (occurrences e pages') = set (occurrences e pages)"
  by (simp add: occurrences_def)

lemma set_sorted_reverse: "set (sorted_reverse f xs) = set xs"
  by (simp add: sorted_reverse_def)

lemma mset_sorted_reverse: "mset (sorted_reverse f xs) = mset xs"
  by (simp add: sorted_reverse_def)

lemma found_iff:
  "c \<in> set (find_contacts_from_pages pages) \<longleftrightarrow>
   (\<exists>e. foldl keep_best None (occurrences e pages) = Some c)"
proof -
  let ?d = "foldl add_page [] pages"
  have d: "distinct (map fst ?d)" by (rule distinct_foldl_add_page) simp
  have "set (find_contacts_from_pages pages) = snd ` set ?d"
    by (simp add: find_contacts_from_pages_def set_sorted_reverse)
  also have "\<dots> = ran (map_of ?d)" using ran_distinct [OF d] by simp
  finally show ?thesis
    using map_of_foldl_add_page [of "[]" pages] by (auto simp: ran_def)
qed

lemma found_email:
  assumes "foldl keep_best None (occurrences e pages) = Some c"
  shows "email c = e"
  using best_in_occurrences [OF assms] occurrences_email by blast

lemma found_distinct_emails: "distinct (map email (find_contacts_from_pages pages))"
proof -
  let ?d = "foldl add_page [] pages"
  have d: "distinct (map fst ?d)" by (rule distinct_foldl_add_page) simp
  have "email (snd kv) = fst kv" if "kv \<in> set ?d" for kv
  proof -
    have "map_of ?d (fst kv) = Some (snd kv)"
      using that d map_of_is_SomeI [of ?d "fst kv" "snd kv"] by simp
    then have "foldl keep_best None (occurrences (fst kv) pages) = Some (snd kv)"
      by (simp add: map_of_foldl_add_page)
    then show ?thesis by (rule found_email)
  qed
  then have "map (email \<circ> snd) ?d = map fst ?d" by (intro map_cong) simp_all
  with d have "distinct (map email (map snd ?d))" by (simp only: map_map)
  moreover have "mset (find_contacts_from_pages pages) = mset (map snd ?d)"
    by (simp only: find_contacts_from_pages_def mset_sorted_reverse)
  then have "mset (map email (find_contacts_from_pages pages)) = mset (map email (map snd ?d))"
    by (metis mset_map)
  ultimately show ?thesis by (metis mset_eq_imp_distinct_iff)
qed

lemma found_perm_confidence:
  assumes s: "set pages' = set pages"
    and c: "foldl keep_best None (occurrences e pages) = Some c"
  shows "\<exists>c'. foldl keep_best None (occurrences e pages') = Some c' \<and>
              confidence c' = confidence c"
proof -
  from best_in_occurrences [OF c]
  have c1: "c \<in> set (occurrences e pages)"
    and c2: "\<forall>x \<in> set (occurrences e pages). confidence x \<le> confidence c" by simp_all
  from c1 have "occurrences e pages' \<noteq> []" using occurrences_perm [OF s, of e] by auto
  then obtain c' where c': "foldl keep_best None (occurrences e pages') = Some c'"
    using best_exists by blast
  from best_in_occurrences [OF c']
  have d1: "c' \<in> set (occurrences e pages')"
    and d2: "\<forall>x \<in> set (occurrences e pages'). confidence x \<le> confidence c'" by simp_all
  from c1 d1 c2 d2 occurrences_perm [OF s, of e] have "confidence c' = confidence c"
    by (metis order_antisym)
  with c' show ?thesis by blast
qed

text \<open>
  C7 (as amended). For every list of pages and every permutation of it,
  \<open>find_contacts_from_pages\<close> returns one candidate per e-mail, with the same e-mails
  and the same confidences. The candidates returned for an e-mail may differ, in
  \<open>role_guess\<close> or in \<open>found_on\<close>, only when they come from two occurrences of the
  e-mail on different pages that tie on the confidence.
\<close>

theorem C7_find_contacts_permutation:
  assumes perm: "mset pages' = mset pages"
  shows "(\<lambda>c. (email c, confidence c)) ` set (find_contacts_from_pages pages') =
         (\<lambda>c. (email c, confidence c)) ` set (find_contacts_from_pages pages) \<and>
         distinct (map email (find_contacts_from_pages pages)) \<and>
         distinct (map email (find_contacts_from_pages pages')) \<and>
         (\<forall>c \<in> set (find_contacts_from_pages pages).
          \<forall>c' \<in> set (find_contacts_from_pages pages').
            email c' = email c \<and> c' \<noteq> c \<longrightarrow>
              confidence c' = confidence c \<and>
              (\<exists>p \<in> set pages. \<exists>p' \<in> set pages.
                 p' \<noteq> p \<and> email c \<in> set (extract_emails (snd p)) \<and>
                 email c \<in> set (extract_emails (snd p')) \<and>
                 c = candidate (email c) p \<and> c' = candidate (email c) p'))"
proof -
  from perm have s: "set pages' = set pages" by (rule mset_eq_setD)
  have sub: "(\<lambda>c. (email c, confidence c)) ` set (find_contacts_from_pages A) \<subseteq>
             (\<lambda>c. (email c, confidence c)) ` set (find_contacts_from_pages B)"
    if AB: "set B = set A" for A B
  proof
    fix x assume "x \<in> (\<lambda>c. (email c, confidence c)) ` set (find_contacts_from_pages A)"
    then obtain c e where x: "x = (email c, confidence c)"
      and c: "foldl keep_best None (occurrences e A) = Some c"
      by (auto simp: found_iff)
    from found_perm_confidence [OF AB c] obtain c' where
      c': "foldl keep_best None (occurrences e B) = Some c'" and "confidence c' = confidence c"
      by blast
    moreover have "email c' = email c" using found_email [OF c] found_email [OF c'] by simp
    moreover have "c' \<in> set (find_contacts_from_pages B)" using c' found_iff by blast
    ultimately show "x \<in> (\<lambda>c. (email c, confidence c)) ` set (find_contacts_from_pages B)"
      unfolding x by (metis (mono_tags, lifting) image_eqI)
  qed
  have same: "(\<lambda>c. (email c, confidence c)) ` set (find_contacts_from_pages pages') =
              (\<lambda>c. (email c, confidence c)) ` set (find_contacts_from_pages pages)"
    using sub [of pages' pages] sub [of pages pages'] s by auto
  have tie: "confidence c' = confidence c \<and>
              (\<exists>p \<in> set pages. \<exists>p' \<in> set pages.
                 p' \<noteq> p \<and> email c \<in> set (extract_emails (snd p)) \<and>
                 email c \<in> set (extract_emails (snd p')) \<and>
                 c = candidate (email c) p \<and> c' = candidate (email c) p')"
    if c: "c \<in> set (find_contacts_from_pages pages)"
      and c': "c' \<in> set (find_contacts_from_pages pages')"
      and e: "email c' = email c" and ne: "c' \<noteq> c" for c c'
  proof -
    from c obtain e1 where b: "foldl keep_best None (occurrences e1 pages) = Some c"
      by (auto simp: found_iff)
    from c' obtain e2 where b': "foldl keep_best None (occurrences e2 pages') = Some c'"
      by (auto simp: found_iff)
    from found_email [OF b] found_email [OF b'] e have e1: "e1 = email c" and e2: "e2 = email c"
      by simp_all
    from found_perm_confidence [OF s b] b' e1 e2
    have conf: "confidence c' = confidence c" by simp
    from best_in_occurrences [OF b] e1 have "c \<in> set (occurrences (email c) pages)" by simp
    from occurrences_page [OF this] obtain p where
      p: "p \<in> set pages" "email c \<in> set (extract_emails (snd p))" "c = candidate (email c) p"
      by blast
    from best_in_occurrences [OF b'] e2 have "c' \<in> set (occurrences (email c) pages')" by simp
    from occurrences_page [OF this] s obtain p' where
      p': "p' \<in> set pages" "email c \<in> set (extract_emails (snd p'))"
          "c' = candidate (email c) p'"
      by blast
    from p(3) p'(3) ne have "p' \<noteq> p" by auto
    with conf p p' show ?thesis by blast
  qed
  from same tie found_distinct_emails [of pages] found_distinct_emails [of pages']
  show ?thesis by blast
qed

theorem C7_witness:
  "mset [(''https://acme.org/partner'', ''write to team@acme.org''),
         (''https://acme.org/csr'', ''write to team@acme.org'')] =
   mset [(''https://acme.org/csr'', ''write to team@acme.org''),
         (''https://acme.org/partner'', ''write to team@acme.org'')] \<and>
   (\<lambda>c. (email c, confidence c)) ` set (find_contacts_from_pages
        [(''https://acme.org/partner'', ''write to team@acme.org''),
         (''https://acme.org/csr'', ''write to team@acme.org'')]) =
   (\<lambda>c. (email c, confidence c)) ` set (find_contacts_from_pages
        [(''https://acme.org/csr'', ''write to team@acme.org''),
         (''https://acme.org/partner'', ''write to team@acme.org'')])"
proof -
  have m: "mset [(''https://acme.org/partner'', ''write to team@acme.org''),
         (''https://acme.org/csr'', ''write to team@acme.org'')] =
     mset [(''https://acme.org/csr'', ''write to team@acme.org''),
         (''https://acme.org/partner'', ''write to team@acme.org'')]"
    by (simp add: add.commute)
  from C7_find_contacts_permutation [OF m] m show ?thesis by blast
qed

text \<open>
  C7 as stated fails: the same two pages in the two orders give the e-mail
  \<open>team@acme.org\<close> the same confidence 0.6 but two different roles.
\<close>

lemma find_contacts_csr_first:
  "find_contacts_from_pages
     [(''https://acme.org/csr'', ''write to team@acme.org''),
      (''https://acme.org/partner'', ''write to team@acme.org'')] =
   [\<lparr>email = ''team@acme.org'', found_on = ''https://acme.org/csr'',
     role_guess = ''csr'', confidence = 0.6\<rparr>]"
  by code_simp

lemma find_contacts_partner_first:
  "find_contacts_from_pages
     [(''https://acme.org/partner'', ''write to team@acme.org''),
      (''https://acme.org/csr'', ''write to team@acme.org'')] =
   [\<lparr>email = ''team@acme.org'', found_on = ''https://acme.org/partner'',
     role_guess = ''partnership'', confidence = 0.6\<rparr>]"
  by code_simp

theorem C7_counterexample:
  "mset [(''https://acme.org/partner'', ''write to team@acme.org''),
         (''https://acme.org/csr'', ''write to team@acme.org'')] =
   mset [(''https://acme.org/csr'', ''write to team@acme.org''),
         (''https://acme.org/partner'', ''write to team@acme.org'')] \<and>
   map role_guess (find_contacts_from_pages
        [(''https://acme.org/csr'', ''write to team@acme.org''),
         (''https://acme.org/partner'', ''write to team@acme.org'')]) = [''csr''] \<and>
   map role_guess (find_contacts_from_pages
        [(''https://acme.org/partner'', ''write to team@acme.org''),
         (''https://acme.org/csr'', ''write to team@acme.org'')]) = [''partnership''] \<and>
   role_guess ` set (find_contacts_from_pages
        [(''https://acme.org/csr'', ''write to team@acme.org''),
         (''https://acme.org/partner'', ''write to team@acme.org'')]) \<noteq>
   role_guess ` set (find_contacts_from_pages
        [(''https://acme.org/partner'', ''write to team@acme.org''),
         (''https://acme.org/csr'', ''write to team@acme.org'')])"
  unfolding find_contacts_csr_first find_contacts_partner_first
  by (simp add: add.commute)

section \<open>Properties of the send worker\<close>

lemma commits_append: "commits (xs @ ys) = commits xs @ commits ys"
  by (induction xs rule: commits.induct) auto

lemma paired_chain_append:
  "paired_chain w k s (cs1 @ cs2) s'' \<longleftrightarrow>
   (\<exists>s'. paired_chain w k s cs1 s' \<and> paired_chain w (k + 2 * length cs1) s' cs2 s'')"
  by (induction w k s cs1 s'' rule: paired_chain.induct) auto

lemma extends_refl: "extends w st st"
  unfolding extends_def by (rule exI [of _ "[]"]) simp

lemma extends_trans:
  assumes "extends w st1 st2" and "extends w st2 st3"
  shows "extends w st1 st3"
proof -
  from assms(1) obtain cs1 where
    a: "commits (events st2) = commits (events st1) @ cs1"
       "paired_chain w (clock_calls st1) (db st1) cs1 (db st2)"
       "clock_calls st2 = clock_calls st1 + 2 * length cs1"
    unfolding extends_def by blast
  from assms(2) obtain cs2 where
    b: "commits (events st3) = commits (events st2) @ cs2"
       "paired_chain w (clock_calls st2) (db st2) cs2 (db st3)"
       "clock_calls st3 = clock_calls st2 + 2 * length cs2"
    unfolding extends_def by blast
  have "commits (events st3) = commits (events st1) @ (cs1 @ cs2)" using a(1) b(1) by simp
  moreover have "paired_chain w (clock_calls st1) (db st1) (cs1 @ cs2) (db st3)"
    using a(2,3) b(2) by (auto simp: paired_chain_append)
  moreover have "clock_calls st3 = clock_calls st1 + 2 * length (cs1 @ cs2)"
    using a(3) b(3) by simp
  ultimately show ?thesis unfolding extends_def by blast
qed

lemma extends_quiet:
  assumes "db st' = db st" and "clock_calls st' = clock_calls st"
    and "commits (events st') = commits (events st)"
  shows "extends w st st'"
  unfolding extends_def using assms by (intro exI [of _ "[]"]) simp

lemma extends_sleep: "sleep secs st = Inr st' \<Longrightarrow> extends w st st'"
  by (rule extends_quiet) (auto simp: sleep_def commits_append split: if_splits)

lemma extends_print: "print_outcome company line st = Inr st' \<Longrightarrow> extends w st st'"
  by (rule extends_quiet) (auto simp: print_outcome_def commits_append split: option.splits)

lemma extends_commit:
  assumes "in_flight did (attempt_status = ''failed'') (db st)"
    and "(new_status = SENT \<and> attempt_status = ''sent'') \<or>
         (new_status = FAILED \<and> attempt_status = ''failed'')"
  shows "extends w st (commit_outcome w did new_status attempt_status message_id err st)"
proof -
  let ?st' = "commit_outcome w did new_status attempt_status message_id err st"
  have "paired_transition w (clock_calls st) (db st) (db ?st')"
    using assms by (auto simp: paired_transition_def commit_outcome_def Let_def)
  then have "paired_chain w (clock_calls st) (db st) [(db st, db ?st')] (db ?st')" by simp
  moreover have "commits (events ?st') = commits (events st) @ [(db st, db ?st')]"
    by (simp add: commit_outcome_def Let_def commits_append)
  moreover have "clock_calls ?st' = clock_calls st + 2 * length [(db st, db ?st')]"
    by (simp add: commit_outcome_def Let_def)
  ultimately show ?thesis unfolding extends_def by blast
qed

lemma in_flight_after_sent:
  assumes "in_flight did False (db st)"
  shows "in_flight did True (db (commit_outcome w did SENT ''sent'' message_id err st))"
proof -
  from assms obtain d where d: "d \<in> set (drafts (db st))" "Draft_id d = did"
    by (auto simp: in_flight_def)
  let ?d' = "d\<lparr>Draft_status := SENT, Draft_updated_at := utcnow w (clock_calls st)\<rparr>"
  have "?d' \<in> set (drafts (db (commit_outcome w did SENT ''sent'' message_id err st)))"
    using d by (force simp: commit_outcome_def Let_def)
  moreover have "Draft_id ?d' = did \<and> Draft_status ?d' = SENT" using d by simp
  ultimately show ?thesis unfolding in_flight_def by blast
qed

lemma in_flight_weaken: "in_flight did False s \<Longrightarrow> in_flight did True s"
  by (auto simp: in_flight_def)

lemma db_sleep: "sleep secs st = Inr st' \<Longrightarrow> db st' = db st"
  by (auto simp: sleep_def split: if_splits)

lemma db_print: "print_outcome company line st = Inr st' \<Longrightarrow> db st' = db st"
  by (auto simp: print_outcome_def split: option.splits)

lemma first_approved_Some:
  assumes "first_approved ds = Some d"
  shows "d \<in> set ds \<and> Draft_status d = APPROVED"
proof -
  let ?xs = "sort_key Draft_updated_at (filter (\<lambda>d. Draft_status d = APPROVED) ds)"
  from assms obtain rest where "?xs = d # rest"
    by (auto simp: first_approved_def split: list.splits)
  then have "d \<in> set ?xs" by simp
  then show ?thesis by simp
qed

lemma first_approved_in_flight:
  "first_approved (drafts s) = Some d \<Longrightarrow> in_flight (Draft_id d) False s"
  using first_approved_Some [of "drafts s" d] by (auto simp: in_flight_def)

lemma try_send_extends:
  assumes fl: "in_flight (Draft_id draft) False (db st)"
  shows "try_send w cfg draft company to_email msg st = Inr st' \<Longrightarrow> extends w st st'"
    and "try_send w cfg draft company to_email msg st = Inl (e, st') \<Longrightarrow>
         extends w st st' \<and> in_flight (Draft_id draft) True (db st')"
proof -
  let ?st0 = "st\<lparr>smtp_calls := smtp_calls st + 1\<rparr>"
  have q: "extends w st ?st0" by (rule extends_quiet) simp_all
  have fl0: "in_flight (Draft_id draft) False (db ?st0)" using fl by simp
  have c: "extends w ?st0 (commit_outcome w (Draft_id draft) SENT ''sent'' pid [] ?st0)" for pid
    using fl0 by (intro extends_commit) (simp_all add: in_flight_def)
  have c1: "extends w st (commit_outcome w (Draft_id draft) SENT ''sent'' pid [] ?st0)" for pid
    using q c by (rule extends_trans)
  have f1: "in_flight (Draft_id draft) True
              (db (commit_outcome w (Draft_id draft) SENT ''sent'' pid [] ?st0))" for pid
    using fl0 by (rule in_flight_after_sent)
  {
    assume "try_send w cfg draft company to_email msg st = Inr st'"
    then show "extends w st st'"
      unfolding try_send_def Let_def
      by (auto split: sum.splits
               intro: extends_trans [OF extends_trans [OF c1 extends_print] extends_sleep])
  }
  {
    assume "try_send w cfg draft company to_email msg st = Inl (e, st')"
    then show "extends w st st' \<and> in_flight (Draft_id draft) True (db st')"
      unfolding try_send_def Let_def
      using q c1 f1 in_flight_weaken [OF fl0]
      by (auto split: sum.splits dest: db_print intro: extends_trans [OF c1 extends_print])
  }
qed

lemma on_exception_extends:
  assumes fl: "in_flight (Draft_id draft) True (db st)"
  shows "on_exception w cfg draft company to_email e st = Inr st' \<Longrightarrow> extends w st st'"
    and "on_exception w cfg draft company to_email e st = Inl (e', st') \<Longrightarrow> extends w st st'"
proof -
  have c: "extends w st (commit_outcome w (Draft_id draft) FAILED ''failed'' [] (take 500 e) st)"
    using fl by (intro extends_commit) simp_all
  {
    assume "on_exception w cfg draft company to_email e st = Inr st'"
    then show "extends w st st'"
      unfolding on_exception_def Let_def
      by (auto split: sum.splits
               intro: extends_trans [OF extends_trans [OF c extends_print] extends_sleep])
  }
  {
    assume "on_exception w cfg draft company to_email e st = Inl (e', st')"
    then show "extends w st st'"
      unfolding on_exception_def Let_def
      using c by (auto split: sum.splits intro: extends_trans [OF c extends_print])
  }
qed

lemma iteration_extends:
  assumes "iteration w cfg once st = (c, st')"
  shows "extends w st st'"
proof (cases "first_approved (drafts (db st))")
  case None
  with assms show ?thesis
    by (auto simp: iteration_def extends_refl split: if_splits sum.splits intro: extends_sleep)
next
  case (Some draft)
  then have fl: "in_flight (Draft_id draft) False (db st)" by (rule first_approved_in_flight)
  show ?thesis
  proof (cases "get_to_email (db st) draft = None \<or> get_to_email (db st) draft = Some []")
    case True
    with assms Some have
      "st' = commit_outcome w (Draft_id draft) FAILED ''failed'' []
               ''No recipient email selected'' st"
      by (auto simp: iteration_def Let_def)
    then show ?thesis using in_flight_weaken [OF fl] by (simp add: extends_commit)
  next
    case False
    let ?from = "if SMTP_FROM cfg \<noteq> [] then SMTP_FROM cfg else SMTP_USER cfg"
    let ?msg = "build_message w (Draft_subject draft) (Draft_body_text draft)
                  (the (get_to_email (db st) draft)) ?from
                  (case get_campaign (db st) draft of None \<Rightarrow> []
                   | Some c \<Rightarrow> Campaign_attachment_paths c)"
    let ?tried = "try_send w cfg draft (get_company (db st) draft)
                  (the (get_to_email (db st) draft)) ?msg st"
    show ?thesis
    proof (cases ?tried)
      case (Inr st1)
      with assms Some False have "st' = st1"
        by (auto simp: iteration_def Let_def split: if_splits)
      with try_send_extends(1) [OF fl Inr] show ?thesis by simp
    next
      case (Inl p)
      obtain e st1 where p: "p = (e, st1)" by (cases p)
      from try_send_extends(2) [OF fl Inl [unfolded p]]
      have x: "extends w st st1" and fl1: "in_flight (Draft_id draft) True (db st1)" by simp_all
      let ?h = "on_exception w cfg draft (get_company (db st) draft)
                  (the (get_to_email (db st) draft)) e st1"
      show ?thesis
      proof (cases ?h)
        case (Inr st2)
        with assms Some False Inl p have "st' = st2"
          by (auto simp: iteration_def Let_def split: if_splits)
        with on_exception_extends(1) [OF fl1 Inr] x show ?thesis by (auto intro: extends_trans)
      next
        case (Inl q)
        obtain e' st2 where q: "q = (e', st2)" by (cases q)
        from assms Some False \<open>?tried = Inl p\<close> p Inl q have "st' = st2"
          by (auto simp: iteration_def Let_def split: if_splits)
        with on_exception_extends(2) [OF fl1 Inl [unfolded q]] x show ?thesis
          by (auto intro: extends_trans)
      qed
    qed
  qed
qed

lemma run_worker_extends:
  "run_worker w cfg loop once fuel st = (out, st') \<Longrightarrow> extends w st st'"
proof (induction fuel arbitrary: st)
  case 0
  then show ?case by (simp add: extends_refl)
next
  case (Suc fuel)
  obtain c st1 where it: "iteration w cfg once st = (c, st1)" by (cases "iteration w cfg once st")
  have x: "extends w st st1" using it by (rule iteration_extends)
  show ?case
  proof (cases c)
    case Continue
    with Suc.prems it have "run_worker w cfg loop once fuel st1 = (out, st')" by simp
    from Suc.IH [OF this] x show ?thesis by (auto intro: extends_trans)
  next
    case Return
    with Suc.prems it x show ?thesis by simp
  next
    case (Raise e)
    with Suc.prems it x show ?thesis by simp
  qed
qed

lemma fast_fail_iteration:
  assumes "first_approved (drafts (db st)) = Some d"
    and "get_to_email (db st) d = None \<or> get_to_email (db st) d = Some []"
  shows "iteration w cfg once st =
           (Continue,
            commit_outcome w (Draft_id d) FAILED ''failed'' [] ''No recipient email selected'' st)"
  using assms by (auto simp: iteration_def Let_def)

lemma fast_fail_state:
  assumes "d \<in> set (drafts (db st))"
    and "st' = commit_outcome w (Draft_id d) FAILED ''failed'' [] ''No recipient email selected'' st"
  shows "events st' = events st @ [Committed (db st) (db st')] \<and>
         smtp_calls st' = smtp_calls st \<and>
         attempts (db st') = attempts (db st) @
           [\<lparr>SendAttempt_id = next_id (attempts (db st)),
             SendAttempt_draft_id = Draft_id d,
             SendAttempt_status = ''failed'',
             SendAttempt_provider = ''smtp'',
             SendAttempt_provider_message_id = [],
             SendAttempt_error = ''No recipient email selected'',
             SendAttempt_timestamp = utcnow w (clock_calls st + 1)\<rparr>] \<and>
         drafts (db st') =
           map (\<lambda>x. if Draft_id x = Draft_id d
                     then x\<lparr>Draft_status := FAILED,
                            Draft_updated_at := utcnow w (clock_calls st)\<rparr>
                     else x) (drafts (db st)) \<and>
         d\<lparr>Draft_status := FAILED, Draft_updated_at := utcnow w (clock_calls st)\<rparr>
           \<in> set (drafts (db st'))"
proof -
  have "d\<lparr>Draft_status := FAILED, Draft_updated_at := utcnow w (clock_calls st)\<rparr>
          \<in> set (drafts (db st'))"
    using assms by (force simp: commit_outcome_def Let_def)
  then show ?thesis using assms(2) by (simp add: commit_outcome_def Let_def)
qed

text \<open>
  C1 (as amended). Every commit of a run of the worker, of any length, is one status
  change paired with one new attempt record: the store changes only through the commits,
  and each commit appends exactly one attempt (of type \<open>sent\<close> with the status \<open>SENT\<close>,
  of type \<open>failed\<close> with the status \<open>FAILED\<close>) for the draft whose status it changes,
  and sets the draft's \<open>updated_at\<close> to the reading of the clock taken at the transition.
\<close>

theorem C1_status_changes_paired:
  "\<exists>cs. commits (events (snd (run_worker w cfg loop once fuel st))) = commits (events st) @ cs \<and>
        paired_chain w (clock_calls st) (db st) cs
          (db (snd (run_worker w cfg loop once fuel st)))"
  using run_worker_extends [of w cfg loop once fuel st
          "fst (run_worker w cfg loop once fuel st)" "snd (run_worker w cfg loop once fuel st)"]
  unfolding extends_def by auto

theorem C1_witness:
  "commits (events (snd (run_worker example_world example_settings False True 3
       (start (example_store [example_draft 1 (Some 1) 10]))))) =
     [(example_store [example_draft 1 (Some 1) 10],
       db (snd (run_worker example_world example_settings False True 3
                 (start (example_store [example_draft 1 (Some 1) 10])))))] \<and>
   paired_transition example_world 0 (example_store [example_draft 1 (Some 1) 10])
     (db (snd (run_worker example_world example_settings False True 3
                (start (example_store [example_draft 1 (Some 1) 10]))))) \<and>
   map Draft_status (drafts (db (snd (run_worker example_world example_settings False True 3
       (start (example_store [example_draft 1 (Some 1) 10])))))) = [SENT] \<and>
   map SendAttempt_status (attempts (db (snd (run_worker example_world example_settings False
       True 3 (start (example_store [example_draft 1 (Some 1) 10])))))) = [''sent'']"
proof -
  let ?st = "start (example_store [example_draft 1 (Some 1) 10])"
  let ?r = "snd (run_worker example_world example_settings False True 3 ?st)"
  have ev: "commits (events ?r) = [(example_store [example_draft 1 (Some 1) 10], db ?r)]"
    by code_simp
  have s: "map Draft_status (drafts (db ?r)) = [SENT]" by code_simp
  have a: "map SendAttempt_status (attempts (db ?r)) = [''sent'']" by code_simp
  from C1_status_changes_paired [of example_world example_settings False True 3 ?st]
  obtain cs where cs: "commits (events ?r) = commits (events ?st) @ cs"
    and ch: "paired_chain example_world (clock_calls ?st) (db ?st) cs (db ?r)" by blast
  from cs ev have "cs = [(example_store [example_draft 1 (Some 1) 10], db ?r)]"
    by (simp add: start_def)
  with ch have "paired_transition example_world 0 (example_store [example_draft 1 (Some 1) 10])
                  (db ?r)"
    by (simp add: start_def)
  with ev s a show ?thesis by simp
qed

text \<open>
  C1 as stated fails: a draft whose \<open>updated_at\<close> is 5000 is sent when the clock reads
  1000; it gets the status \<open>SENT\<close>, one attempt of type \<open>sent\<close>, and the timestamp 1000,
  which is not later than 5000.
\<close>

theorem C1_counterexample:
  "Draft_updated_at (example_draft 1 (Some 1) 5000) = 5000 \<and>
   map Draft_status (drafts (db (snd (run_worker example_world example_settings False True 3
       (start (example_store [example_draft 1 (Some 1) 5000])))))) = [SENT] \<and>
   map SendAttempt_status (attempts (db (snd (run_worker example_world example_settings False
       True 3 (start (example_store [example_draft 1 (Some 1) 5000])))))) = [''sent''] \<and>
   map Draft_updated_at (drafts (db (snd (run_worker example_world example_settings False True 3
       (start (example_store [example_draft 1 (Some 1) 5000])))))) = [1000] \<and>
   \<not> (5000 :: int) < 1000"
  by code_simp

text \<open>
  C5. When the draft that the worker claims has no resolvable recipient (no contact, or a
  contact whose e-mail is empty), the iteration commits the draft as \<open>FAILED\<close> together
  with exactly one \<open>failed\<close> attempt whose error is \<open>No recipient email selected\<close>,
  calls neither the transport nor \<open>sleep\<close> (the log gains the commit and nothing else),
  and ends with \<open>continue\<close>: the worker goes on with the next iteration.
\<close>

theorem C5_no_recipient_fast_fail:
  assumes claimed: "first_approved (drafts (db st)) = Some d"
    and none: "get_to_email (db st) d = None \<or> get_to_email (db st) d = Some []"
  shows "\<exists>st'. iteration w cfg once st = (Continue, st') \<and>
           run_worker w cfg loop once (Suc fuel) st = run_worker w cfg loop once fuel st' \<and>
           events st' = events st @ [Committed (db st) (db st')] \<and>
           smtp_calls st' = smtp_calls st \<and>
           attempts (db st') = attempts (db st) @
             [\<lparr>SendAttempt_id = next_id (attempts (db st)),
               SendAttempt_draft_id = Draft_id d,
               SendAttempt_status = ''failed'',
               SendAttempt_provider = ''smtp'',
               SendAttempt_provider_message_id = [],
               SendAttempt_error = ''No recipient email selected'',
               SendAttempt_timestamp = utcnow w (clock_calls st + 1)\<rparr>] \<and>
           drafts (db st') =
             map (\<lambda>x. if Draft_id x = Draft_id d
                       then x\<lparr>Draft_status := FAILED,
                              Draft_updated_at := utcnow w (clock_calls st)\<rparr>
                       else x) (drafts (db st)) \<and>
           d\<lparr>Draft_status := FAILED, Draft_updated_at := utcnow w (clock_calls st)\<rparr>
             \<in> set (drafts (db st'))"
proof -
  let ?st' = "commit_outcome w (Draft_id d) FAILED ''failed'' [] ''No recipient email selected'' st"
  have it: "iteration w cfg once st = (Continue, ?st')"
    using claimed none by (rule fast_fail_iteration)
  then have "run_worker w cfg loop once (Suc fuel) st = run_worker w cfg loop once fuel ?st'"
    by simp
  moreover have "d \<in> set (drafts (db st))" using first_approved_Some [OF claimed] by simp
  ultimately show ?thesis using it fast_fail_state [OF _ refl, of d st w] by blast
qed

theorem C5_witness:
  "first_approved (drafts (db (start (example_store [example_draft 1 None 10])))) =
     Some (example_draft 1 None 10) \<and>
   get_to_email (db (start (example_store [example_draft 1 None 10]))) (example_draft 1 None 10)
     = None \<and>
   fst (iteration example_world example_settings False
          (start (example_store [example_draft 1 None 10]))) = Continue \<and>
   events (snd (iteration example_world example_settings False
                  (start (example_store [example_draft 1 None 10])))) =
     [Committed (example_store [example_draft 1 None 10])
        (db (snd (iteration example_world example_settings False
                    (start (example_store [example_draft 1 None 10])))))] \<and>
   map SendAttempt_error
     (attempts (db (snd (iteration example_world example_settings False
                          (start (example_store [example_draft 1 None 10])))))) =
     [''No recipient email selected'']"
proof -
  let ?st = "start (example_store [example_draft 1 None 10])"
  have c: "first_approved (drafts (db ?st)) = Some (example_draft 1 None 10)" by code_simp
  have n: "get_to_email (db ?st) (example_draft 1 None 10) = None" by code_simp
  from C5_no_recipient_fast_fail [OF c disjI1 [OF n], of example_world example_settings False]
  obtain st' where "iteration example_world example_settings False ?st = (Continue, st')"
    and "events st' = events ?st @ [Committed (db ?st) (db st')]"
    and "attempts (db st') = attempts (db ?st) @
             [\<lparr>SendAttempt_id = next_id (attempts (db ?st)),
               SendAttempt_draft_id = Draft_id (example_draft 1 None 10),
               SendAttempt_status = ''failed'',
               SendAttempt_provider = ''smtp'',
               SendAttempt_provider_message_id = [],
               SendAttempt_error = ''No recipient email selected'',
               SendAttempt_timestamp = utcnow example_world (clock_calls ?st + 1)\<rparr>]"
    by blast
  with c n show ?thesis by (simp add: start_def example_store_def)
qed

text \<open>
  C10. The fast-fail path is also taken when the draft's contact exists and its e-mail is
  the empty string: the draft is committed as \<open>FAILED\<close> with one \<open>failed\<close> attempt
  whose error is \<open>No recipient email selected\<close>, and the transport is not called.
\<close>

theorem C10_empty_email_fast_fail:
  assumes claimed: "first_approved (drafts (db st)) = Some d"
    and cid: "Draft_contact_id d = Some cid" "cid \<noteq> 0"
    and contact: "get Contact_id (contacts (db st)) cid = Some c"
    and empty: "Contact_email c = []"
  shows "\<exists>st'. iteration w cfg once st = (Continue, st') \<and>
           smtp_calls st' = smtp_calls st \<and>
           events st' = events st @ [Committed (db st) (db st')] \<and>
           attempts (db st') = attempts (db st) @
             [\<lparr>SendAttempt_id = next_id (attempts (db st)),
               SendAttempt_draft_id = Draft_id d,
               SendAttempt_status = ''failed'',
               SendAttempt_provider = ''smtp'',
               SendAttempt_provider_message_id = [],
               SendAttempt_error = ''No recipient email selected'',
               SendAttempt_timestamp = utcnow w (clock_calls st + 1)\<rparr>] \<and>
           d\<lparr>Draft_status := FAILED, Draft_updated_at := utcnow w (clock_calls st)\<rparr>
             \<in> set (drafts (db st'))"
proof -
  let ?st' = "commit_outcome w (Draft_id d) FAILED ''failed'' [] ''No recipient email selected'' st"
  have "get_to_email (db st) d = Some []"
    using cid contact empty by (simp add: get_to_email_def get_contact_def)
  then have it: "iteration w cfg once st = (Continue, ?st')"
    using claimed by (intro fast_fail_iteration) simp_all
  moreover have "d \<in> set (drafts (db st))" using first_approved_Some [OF claimed] by simp
  ultimately show ?thesis using fast_fail_state [OF _ refl, of d st w] by blast
qed

theorem C10_witness:
  "first_approved (drafts (db (start (example_store [example_draft 1 (Some 2) 10])))) =
     Some (example_draft 1 (Some 2) 10) \<and>
   Draft_contact_id (example_draft 1 (Some 2) 10) = Some 2 \<and> (2 :: int) \<noteq> 0 \<and>
   get Contact_id (contacts (db (start (example_store [example_draft 1 (Some 2) 10])))) 2 =
     Some \<lparr>Contact_id = 2, Contact_company_id = 1, Contact_email = []\<rparr> \<and>
   Contact_email \<lparr>Contact_id = 2, Contact_company_id = 1, Contact_email = []\<rparr> = [] \<and>
   fst (iteration example_world example_settings True
          (start (example_store [example_draft 1 (Some 2) 10]))) = Continue \<and>
   smtp_calls (snd (iteration example_world example_settings True
                      (start (example_store [example_draft 1 (Some 2) 10])))) = 0"
proof -
  let ?st = "start (example_store [example_draft 1 (Some 2) 10])"
  let ?c = "\<lparr>Contact_id = 2, Contact_company_id = 1, Contact_email = []\<rparr>"
  have c: "first_approved (drafts (db ?st)) = Some (example_draft 1 (Some 2) 10)" by code_simp
  have i: "Draft_contact_id (example_draft 1 (Some 2) 10) = Some 2"
    by (simp add: example_draft_def)
  have g: "get Contact_id (contacts (db ?st)) 2 = Some ?c" by code_simp
  have e: "Contact_email ?c = []" by simp
  from C10_empty_email_fast_fail [OF c i _ g e, of example_world example_settings True]
  obtain st' where "iteration example_world example_settings True ?st = (Continue, st')"
    and "smtp_calls st' = smtp_calls ?st"
    by auto
  with c i g show ?thesis by (simp add: start_def)
qed

text \<open>
  C2. With \<open>--once\<close> and a store of two approved drafts that have no contact, the run
  claims and fails both drafts before it returns: the \<open>continue\<close> of the fast-fail path
  skips the \<open>if once: return\<close> at the end of the loop body.
\<close>

theorem C2_once_claims_second_draft:
  "fst (main example_world example_settings True 3
         (start (example_store [example_draft 1 None 10, example_draft 2 None 20])))
     = Some Returned \<and>
   map Draft_status (drafts (db (snd (main example_world example_settings True 3
         (start (example_store [example_draft 1 None 10, example_draft 2 None 20]))))))
     = [FAILED, FAILED] \<and>
   map SendAttempt_draft_id (attempts (db (snd (main example_world example_settings True 3
         (start (example_store [example_draft 1 None 10, example_draft 2 None 20]))))))
     = [1, 2] \<and>
   length (commits (events (snd (main example_world example_settings True 3
         (start (example_store [example_draft 1 None 10, example_draft 2 None 20])))))) = 2"
  by code_simp

lemma filter_map_le:
  "(\<And>y. P (f y) \<Longrightarrow> P y) \<Longrightarrow> length (filter P (map f xs)) \<le> length (filter P xs)"
  by (induction xs) auto

lemma filter_map_less:
  assumes "x \<in> set xs" and "P x" and "\<not> P (f x)" and mono: "\<And>y. P (f y) \<Longrightarrow> P y"
  shows "length (filter P (map f xs)) < length (filter P xs)"
  using assms(1)
proof (induction xs)
  case Nil
  then show ?case by simp
next
  case (Cons a xs)
  have le: "length (filter P (map f xs)) \<le> length (filter P xs)"
    using mono by (rule filter_map_le)
  show ?case
  proof (cases "a = x")
    case True
    with assms(2,3) le show ?thesis by simp
  next
    case False
    with Cons have "length (filter P (map f xs)) < length (filter P xs)" by simp
    then show ?thesis using mono [of a] by auto
  qed
qed

lemma drafts_commit_outcome:
  "drafts (db (commit_outcome w did new_status a m e st)) =
     map (\<lambda>d. if Draft_id d = did
               then d\<lparr>Draft_status := new_status,
                      Draft_updated_at := utcnow w (clock_calls st)\<rparr>
               else d) (drafts (db st))"
  by (simp add: commit_outcome_def Let_def)

lemma fast_fail_fewer_approved:
  assumes "first_approved (drafts (db st)) = Some d"
  shows "length (filter (\<lambda>x. Draft_status x = APPROVED)
           (drafts (db (commit_outcome w (Draft_id d) FAILED a m e st))))
         < length (filter (\<lambda>x. Draft_status x = APPROVED) (drafts (db st)))"
proof -
  from first_approved_Some [OF assms]
  have d: "d \<in> set (drafts (db st))" "Draft_status d = APPROVED" by simp_all
  have ne: "FAILED \<noteq> APPROVED" by (simp add: FAILED_def APPROVED_def)
  show ?thesis
    unfolding drafts_commit_outcome
  proof (rule filter_map_less [of d])
    show "d \<in> set (drafts (db st))" by (rule d(1))
    show "Draft_status d = APPROVED" by (rule d(2))
    show "Draft_status (if Draft_id d = Draft_id d
            then d\<lparr>Draft_status := FAILED, Draft_updated_at := utcnow w (clock_calls st)\<rparr>
            else d) \<noteq> APPROVED"
      using ne by simp
    show "Draft_status y = APPROVED"
      if "Draft_status (if Draft_id y = Draft_id d
            then y\<lparr>Draft_status := FAILED, Draft_updated_at := utcnow w (clock_calls st)\<rparr>
            else y) = APPROVED" for y
      using that ne by (auto split: if_splits)
  qed
qed

lemma once_continue:
  assumes "iteration w cfg True st = (Continue, st')"
  shows "\<exists>d. first_approved (drafts (db st)) = Some d \<and>
             st' = commit_outcome w (Draft_id d) FAILED ''failed'' []
                     ''No recipient email selected'' st"
  using assms unfolding iteration_def Let_def
  by (auto split: option.splits if_splits sum.splits prod.splits)

text \<open>
  A run with \<open>--once\<close> always ends, by \<open>return\<close> or by an exception: one iteration more
  than there are approved drafts is enough.
\<close>

lemma run_worker_once_ends:
  "length (filter (\<lambda>x. Draft_status x = APPROVED) (drafts (db st))) \<le> n \<Longrightarrow>
   fst (run_worker w cfg loop True (Suc n) st) \<noteq> None"
proof (induction n arbitrary: st)
  case 0
  obtain c st1 where it: "iteration w cfg True st = (c, st1)"
    by (cases "iteration w cfg True st")
  show ?case
  proof (cases c)
    case Continue
    from once_continue [OF it [unfolded Continue]] obtain d where
      "first_approved (drafts (db st)) = Some d" by blast
    from fast_fail_fewer_approved [OF this, of w "[]" "[]" "[]"] 0 show ?thesis by simp
  qed (use it in simp_all)
next
  case (Suc n)
  obtain c st1 where it: "iteration w cfg True st = (c, st1)"
    by (cases "iteration w cfg True st")
  show ?case
  proof (cases c)
    case Continue
    from once_continue [OF it [unfolded Continue]] obtain d where
      d: "first_approved (drafts (db st)) = Some d"
      and st1: "st1 = commit_outcome w (Draft_id d) FAILED ''failed'' []
                        ''No recipient email selected'' st" by blast
    from fast_fail_fewer_approved
           [OF d, of w "''failed''" "[]" "''No recipient email selected''"] Suc.prems st1
    have "length (filter (\<lambda>x. Draft_status x = APPROVED) (drafts (db st1))) \<le> n" by simp
    from Suc.IH [OF this] it Continue show ?thesis by simp
  qed (use it in simp_all)
qed

text \<open>
  With \<open>--once\<close> the transport is called at most once: the drafts claimed before that
  call are those failed for lack of a recipient.
\<close>

lemma smtp_calls_try_send:
  "try_send w cfg draft company to_email msg st = Inr st' \<Longrightarrow> smtp_calls st' = smtp_calls st + 1"
  "try_send w cfg draft company to_email msg st = Inl (e, st') \<Longrightarrow>
     smtp_calls st' = smtp_calls st + 1"
  unfolding try_send_def Let_def
  by (auto simp: commit_outcome_def Let_def print_outcome_def sleep_def
           split: sum.splits option.splits if_splits)

lemma smtp_calls_on_exception:
  "on_exception w cfg draft company to_email e st = Inr st' \<Longrightarrow> smtp_calls st' = smtp_calls st"
  "on_exception w cfg draft company to_email e st = Inl (e', st') \<Longrightarrow>
     smtp_calls st' = smtp_calls st"
  unfolding on_exception_def Let_def
  by (auto simp: commit_outcome_def Let_def print_outcome_def sleep_def
           split: sum.splits option.splits if_splits)

lemma smtp_calls_iteration:
  assumes "iteration w cfg once st = (c, st')"
  shows "smtp_calls st' \<le> smtp_calls st + 1 \<and> (c = Continue \<and> once \<longrightarrow> smtp_calls st' = smtp_calls st)"
  using assms unfolding iteration_def Let_def
  by (auto simp: commit_outcome_def Let_def sleep_def
           split: option.splits if_splits sum.splits prod.splits
           dest!: smtp_calls_try_send smtp_calls_on_exception)

lemma run_worker_once_one_send:
  "smtp_calls (snd (run_worker w cfg loop True fuel st)) \<le> smtp_calls st + 1"
proof (induction fuel arbitrary: st)
  case 0
  then show ?case by simp
next
  case (Suc fuel)
  obtain c st1 where it: "iteration w cfg True st = (c, st1)"
    by (cases "iteration w cfg True st")
  from smtp_calls_iteration [OF it] Suc [of st1] it show ?case
    by (cases c) auto
qed

section \<open>Properties of the personalization brief\<close>

lemma offline_is_LLMError:
  "LLM_PROVIDER cfg = ''none'' \<Longrightarrow>
   json_from_llm cfg lw messages hint = Inl (LLMError ''LLM_PROVIDER=none (offline mode).'')"
  by (simp add: json_from_llm_def chat_completion_def)

text \<open>
  C9. For every org profile, company profile and language, when the text-generation
  call raises \<open>LLMError\<close>, \<open>build_personalization_brief\<close> does not raise: it returns
  the fallback brief, which is determined by the two profiles and has the five keys
  \<open>company_angle\<close>, \<open>why_match\<close>, \<open>best_cta\<close>, \<open>benefits\<close> and \<open>subject_ideas\<close>.
\<close>

theorem C9_brief_fallback:
  assumes "json_from_llm cfg lw [brief_prompt lw org_profile company_profile language] ''brief''
             = Inl (LLMError m)"
  shows "build_personalization_brief cfg lw org_profile company_profile language
           = Inr (PDict (fallback_brief lw org_profile company_profile)) \<and>
         map fst (fallback_brief lw org_profile company_profile)
           = [''company_angle'', ''why_match'', ''best_cta'', ''benefits'', ''subject_ideas'']"
  using assms by (simp add: build_personalization_brief_def fallback_brief_def)

theorem C9_witness:
  "json_from_llm example_settings example_llm_world
     [brief_prompt example_llm_world example_org example_company ''vi''] ''brief''
     = Inl (LLMError ''LLM_PROVIDER=none (offline mode).'') \<and>
   build_personalization_brief example_settings example_llm_world example_org example_company
     ''vi'' = Inr (PDict (fallback_brief example_llm_world example_org example_company)) \<and>
   map_of (fallback_brief example_llm_world example_org example_company) ''company_angle''
     = Some (PStr ''Quality'') \<and>
   map_of (fallback_brief example_llm_world example_org example_company) ''subject_ideas''
     = Some (PList [PStr (FALLBACK_SUBJECT_1 @ ''Green Gala''),
                    PStr (FALLBACK_SUBJECT_2 @ ''Green Gala''), PStr FALLBACK_SUBJECT_3])"
proof -
  have h: "json_from_llm example_settings example_llm_world
     [brief_prompt example_llm_world example_org example_company ''vi''] ''brief''
     = Inl (LLMError ''LLM_PROVIDER=none (offline mode).'')"
    by (rule offline_is_LLMError) (simp add: example_settings_def)
  have a: "map_of (fallback_brief example_llm_world example_org example_company)
             ''company_angle'' = Some (PStr ''Quality'')"
    by (simp add: fallback_brief_def example_company_def dict_get_def py_or_def)
  have s: "map_of (fallback_brief example_llm_world example_org example_company)
             ''subject_ideas''
     = Some (PList [PStr (FALLBACK_SUBJECT_1 @ ''Green Gala''),
                    PStr (FALLBACK_SUBJECT_2 @ ''Green Gala''), PStr FALLBACK_SUBJECT_3])"
    by (simp add: fallback_brief_def example_org_def dict_get_default_def py_str_def)
  from C9_brief_fallback [OF h] h a s show ?thesis by simp
qed

text \<open>
  The fallback is not reached when the call fails with another exception: a connection
  error of \<open>requests.post\<close> leaves \<open>build_personalization_brief\<close>.
\<close>

lemma brief_connection_error:
  "build_personalization_brief
     (example_settings\<lparr>LLM_PROVIDER := ''openai'', LLM_API_KEY := Some ''k''\<rparr>)
     example_llm_world example_org example_company ''vi''
   = Inl (OtherException ''ConnectionError'')"
  by (simp add: build_personalization_brief_def json_from_llm_def chat_completion_def
        example_settings_def example_llm_world_def default_base_url_def strip_chars_def
        WHITESPACE_def)

end
